theory Spec2Isabelle
  imports
    Main
    "HOL-Library.Char_ord"
    "HOL-Library.List_Lexorder"
    "HOL-Library.Product_Lexorder"
    "HOL-Library.Multiset"
begin

section \<open>Exceptions\<close>

text \<open>
  The exceptions that the modelled code can raise. A function that may raise returns
  \<open>error + result\<close>, with \<open>Inl\<close> for the exception.
\<close>

datatype error =
    JSONDecodeError
  | KeyError string
  | TypeError string
  | ValueError string
  | OSError string
  | EOFError

section \<open>Strings\<close>

text \<open>
  A Python \<open>str\<close> is modelled as a \<open>string\<close>: one \<open>char\<close> per code point, for the code
  points 0 to 255. \<open>length\<close> is Python's \<open>len\<close>, and the order of \<open>List_Lexorder\<close> over
  \<open>Char_ord\<close> is Python's comparison of strings (code point by code point, a proper prefix
  is smaller).
\<close>

definition is_space :: "char \<Rightarrow> bool" where
  \<comment> \<open>\<open>str.isspace\<close> on one code point below 256: TAB, LF, VT, FF, CR, the separators
      0x1C to 0x1F, the blank, NEL (0x85) and the no-break blank (0xA0).\<close>
  "is_space c =
     (let n = (of_char c :: nat)
      in (9 \<le> n \<and> n \<le> 13) \<or> (28 \<le> n \<and> n \<le> 32) \<or> n = 133 \<or> n = 160)"

fun split_acc :: "string \<Rightarrow> string \<Rightarrow> string list" where
  "split_acc w [] = (if w = [] then [] else [w])"
| "split_acc w (c # cs) =
     (if is_space c then (if w = [] then split_acc [] cs else w # split_acc [] cs)
      else split_acc (w @ [c]) cs)"

definition split :: "string \<Rightarrow> string list" where
  \<comment> \<open>\<open>text.split()\<close> with no argument: the maximal runs of non-whitespace, in order.\<close>
  "split text = split_acc [] text"

fun join :: "string \<Rightarrow> string list \<Rightarrow> string" where
  \<comment> \<open>\<open>sep.join(words)\<close>\<close>
  "join sep [] = []"
| "join sep [w] = w"
| "join sep (w # v # ws) = w @ sep @ join sep (v # ws)"

subsection \<open>Other string methods\<close>

text \<open>
  \<open>str.lower\<close> and \<open>str.upper\<close> on the code points 0 to 255. Lowering maps \<open>A\<close> to \<open>Z\<close>
  and the letters 0xC0 to 0xDE (but not the sign 0xD7) to the code point 32 higher.
  Raising maps \<open>a\<close> to \<open>z\<close> and the letters 0xE0 to 0xFE (but not the sign 0xF7) to the code
  point 32 lower, and the sharp s (0xDF) to the two letters \<open>SS\<close>. Python raises the micro
  sign (0xB5) and the y with diaeresis (0xFF) to code points above 255, which a \<open>string\<close>
  cannot hold: \<open>upper\<close> is Python's function on the strings for which \<open>upper_fits\<close> holds,
  and leaves these two characters as they are.
\<close>

definition lower_char :: "char \<Rightarrow> char" where
  "lower_char c =
     (case map_of (zip ''ABCDEFGHIJKLMNOPQRSTUVWXYZ'' ''abcdefghijklmnopqrstuvwxyz'') c of
        Some l \<Rightarrow> l
      | None \<Rightarrow>
          let n = (of_char c :: nat)
          in if 192 \<le> n \<and> n \<le> 222 \<and> n \<noteq> 215 then char_of (n + 32) else c)"

definition upper_char :: "char \<Rightarrow> string" where
  "upper_char c =
     (case map_of (zip ''abcdefghijklmnopqrstuvwxyz'' ''ABCDEFGHIJKLMNOPQRSTUVWXYZ'') c of
        Some u \<Rightarrow> [u]
      | None \<Rightarrow>
          let n = (of_char c :: nat)
          in if 224 \<le> n \<and> n \<le> 254 \<and> n \<noteq> 247 then [char_of (n - 32)]
             else if n = 223 then ''SS'' else [c])"

definition lower :: "string \<Rightarrow> string" where
  \<comment> \<open>\<open>s.lower()\<close>\<close>
  "lower s = map lower_char s"

definition upper :: "string \<Rightarrow> string" where
  \<comment> \<open>\<open>s.upper()\<close>\<close>
  "upper s = concat (map upper_char s)"

definition upper_fits :: "string \<Rightarrow> bool" where
  \<comment> \<open>no micro sign and no y with diaeresis: the upper case of \<open>s\<close> is a \<open>string\<close>\<close>
  "upper_fits s = list_all (\<lambda>c. (of_char c :: nat) \<noteq> 181 \<and> (of_char c :: nat) \<noteq> 255) s"

definition strip :: "string \<Rightarrow> string" where
  \<comment> \<open>\<open>str.strip()\<close>: whitespace removed at both ends\<close>
  "strip s = rev (dropWhile is_space (rev (dropWhile is_space s)))"

fun startswith :: "string \<Rightarrow> string \<Rightarrow> bool" where
  \<comment> \<open>\<open>s.startswith(p)\<close>\<close>
  "startswith s [] = True"
| "startswith [] (p # ps) = False"
| "startswith (c # cs) (p # ps) = (c = p \<and> startswith cs ps)"

fun contains :: "string \<Rightarrow> string \<Rightarrow> bool" where
  \<comment> \<open>\<open>sub in s\<close>\<close>
  "contains [] sub = (sub = [])"
| "contains (c # cs) sub = (startswith (c # cs) sub \<or> contains cs sub)"

fun split_on_acc :: "char \<Rightarrow> string \<Rightarrow> string \<Rightarrow> string list" where
  "split_on_acc sep w [] = [w]"
| "split_on_acc sep w (c # cs) =
     (if c = sep then w # split_on_acc sep [] cs else split_on_acc sep (w @ [c]) cs)"

definition split_on :: "char \<Rightarrow> string \<Rightarrow> string list" where
  \<comment> \<open>\<open>s.split(sep)\<close> for a separator of one character: never empty\<close>
  "split_on sep s = split_on_acc sep [] s"

definition is_ascii_digit :: "char \<Rightarrow> bool" where
  "is_ascii_digit c = (let n = (of_char c :: nat) in 48 \<le> n \<and> n \<le> 57)"

definition isdigit :: "string \<Rightarrow> bool" where
  \<comment> \<open>\<open>str.isdigit()\<close>: not empty, and every character a digit. Below 256 the digits are
      0 to 9 and the superscripts two (0xB2), three (0xB3) and one (0xB9).\<close>
  "isdigit s =
     (s \<noteq> [] \<and>
      list_all (\<lambda>c. is_ascii_digit c \<or> (of_char c :: nat) \<in> {178, 179, 185}) s)"

definition py_int :: "string \<Rightarrow> error + int" where
  \<comment> \<open>\<open>int(s)\<close> on a string for which \<open>isdigit\<close> holds: the decimal value;
      \<open>ValueError\<close> when the string starts with more than 4300 digits 0 to 9 (the
      default of \<open>sys.int_max_str_digits\<close>; leading zeros count), and when a
      superscript digit occurs. The texts of the exceptions are shortened: Python adds the
      number of digits to the first and the string to the second.\<close>
  "py_int s =
     (if length (takeWhile is_ascii_digit s) > 4300
      then Inl (ValueError ''Exceeds the limit (4300 digits) for integer string conversion'')
      else if s \<noteq> [] \<and> list_all is_ascii_digit s
      then Inr (foldl (\<lambda>v c. 10 * v + (int (of_char c) - 48)) 0 s)
      else Inl (ValueError ''invalid literal for int()''))"

fun str_nat :: "nat \<Rightarrow> string" where
  \<comment> \<open>\<open>str(n)\<close> for a non-negative integer\<close>
  "str_nat n =
     (if n < 10 then [''0123456789'' ! n] else str_nat (n div 10) @ [''0123456789'' ! (n mod 10)])"


declare str_nat.simps [simp del]

section \<open>The text wrapper\<close>

text \<open>
  \<open>EnhancedRoadmapTUI._wrap_text\<close> (roadmap-enhanced.py) and
  \<open>ModernRoadmapViewer.format_text\<close> (roadmap-modern.py) have the same body. The loop state
  is \<open>(lines, current_line, current_length)\<close>; \<open>wrap_step\<close> is one pass of the
  \<open>for word in words\<close> loop.
\<close>

type_synonym wrap_state = "string list \<times> string list \<times> int"

definition wrap_step :: "int \<Rightarrow> wrap_state \<Rightarrow> string \<Rightarrow> wrap_state" where
  "wrap_step width st word =
     (case st of (lines, current_line, current_length) \<Rightarrow>
        if current_length + int (length word) + 1 \<le> width
        then (lines, current_line @ [word], current_length + int (length word) + 1)
        else ((if current_line \<noteq> [] then lines @ [join '' '' current_line] else lines),
              [word], int (length word)))"

definition wrap_finish :: "wrap_state \<Rightarrow> string list" where
  "wrap_finish st =
     (case st of (lines, current_line, current_length) \<Rightarrow>
        let lines = (if current_line \<noteq> [] then lines @ [join '' '' current_line] else lines)
        in if lines \<noteq> [] then lines else [''''])"

definition wrap_text :: "string \<Rightarrow> int \<Rightarrow> string list" where
  "wrap_text text width = wrap_finish (foldl (wrap_step width) ([], [], 0) (split text))"

definition format_text :: "string \<Rightarrow> int \<Rightarrow> string list" where
  "format_text text width = wrap_finish (foldl (wrap_step width) ([], [], 0) (split text))"

subsection \<open>Predicates for the proofs about the wrapper\<close>

definition is_word :: "string \<Rightarrow> bool" where
  "is_word w = (w \<noteq> [] \<and> list_all (\<lambda>c. \<not> is_space c) w)"

definition wrap_inv :: "int \<Rightarrow> string list \<Rightarrow> wrap_state \<Rightarrow> bool" where
  "wrap_inv width ws st =
     (case st of (lines, cur, clen) \<Rightarrow>
        0 \<le> clen \<and>
        (\<exists>groups. lines = map (join '' '') groups \<and> concat groups @ cur = ws \<and>
           (\<forall>g \<in> set groups. g \<noteq> [] \<and> (int (length (join '' '' g)) \<le> width \<or> length g = 1))) \<and>
        (cur \<noteq> [] \<longrightarrow> int (length (join '' '' cur)) \<le> clen \<and> (clen \<le> width \<or> length cur = 1)))"

section \<open>The task record and the task store (roadmap-enhanced.py)\<close>

record link =
  link_name :: string
  link_url :: string

text \<open>
  An \<open>EnhancedTask\<close> object. The first nine fields are those of the base class \<open>Task\<close>
  (\<open>self.id\<close> is \<open>task_id\<close> here), the last three are added by \<open>EnhancedTask.__init__\<close>.
  The field types are the annotations of \<open>EnhancedTask.__init__\<close>.
\<close>

record task =
  task_id :: string
  title :: string
  status :: string
  priority :: string
  project :: string
  description :: string
  milestone :: string
  created :: string
  updated :: string
  details :: string
  links :: "link list"
  subtasks :: "string list"

text \<open>
  A task object of the JSON file: each member is present (\<open>Some\<close>) or absent (\<open>None\<close>),
  and a present member has the type of the data model. \<open>tasks.json\<close> is absent, is not a
  JSON text, or holds a JSON object from task ids to task objects, kept in the order of the
  file (the keys of a JSON object read by \<open>json.load\<close> are distinct). \<open>json.load\<close> and
  \<open>json.dump\<close> belong to the Python library: the model passes documents, not their text.
  A task object with a member other than these twelve, or with a member of another type, is
  outside the model.
\<close>

record task_json =
  j_id :: "string option"
  j_title :: "string option"
  j_status :: "string option"
  j_priority :: "string option"
  j_project :: "string option"
  j_description :: "string option"
  j_milestone :: "string option"
  j_created :: "string option"
  j_updated :: "string option"
  j_details :: "string option"
  j_links :: "link list option"
  j_subtasks :: "string list option"

datatype tasks_file = Absent | Malformed | Document "(string \<times> task_json) list"

text \<open>
  \<open>Task.__init__\<close> is defined in \<open>roadmap.py\<close>, which is not among the source files; the
  call \<open>super().__init__(task_id, title, status, priority, project, description, milestone,
  created, updated)\<close> fixes its arguments. The base constructor is a parameter of the model.
\<close>

type_synonym task_init =
  "string \<Rightarrow> string \<Rightarrow> string \<Rightarrow> string \<Rightarrow> string \<Rightarrow> string \<Rightarrow> string \<Rightarrow>
   string option \<Rightarrow> string option \<Rightarrow> task"

definition EnhancedTask_init ::
  "task_init \<Rightarrow> string \<Rightarrow> string \<Rightarrow> string \<Rightarrow> string \<Rightarrow> string \<Rightarrow> string \<Rightarrow> string \<Rightarrow>
   string option \<Rightarrow> string option \<Rightarrow> string \<Rightarrow> link list option \<Rightarrow> string list option \<Rightarrow> task"
where
  "EnhancedTask_init Task_init tid ttl st pri proj descr ms cr upd det lks subs =
     (Task_init tid ttl st pri proj descr ms cr upd)
       \<lparr>details := det,
        links := (case lks of None \<Rightarrow> [] | Some l \<Rightarrow> l),
        subtasks := (case subs of None \<Rightarrow> [] | Some l \<Rightarrow> l)\<rparr>"

definition pop :: "'a option \<Rightarrow> 'a \<Rightarrow> 'a" where
  \<comment> \<open>\<open>data.pop(key, default)\<close>, and a keyword argument left to its default\<close>
  "pop member dflt = (case member of None \<Rightarrow> dflt | Some v \<Rightarrow> v)"

definition from_dict :: "task_init \<Rightarrow> task_json \<Rightarrow> error + task" where
  "from_dict Task_init data =
     (case j_id data of
        None \<Rightarrow> Inl (KeyError ''id'')
      | Some tid \<Rightarrow>
          let det = pop (j_details data) '''';
              lks = pop (j_links data) [];
              subs = pop (j_subtasks data) []
          in case j_title data of
               None \<Rightarrow> Inl (TypeError ''missing required argument: title'')
             | Some ttl \<Rightarrow>
                 Inr (EnhancedTask_init Task_init tid ttl
                        (pop (j_status data) ''todo'') (pop (j_priority data) ''medium'')
                        (pop (j_project data) ''workspace'') (pop (j_description data) '''')
                        (pop (j_milestone data) '''') (j_created data) (j_updated data)
                        det (Some lks) (Some subs)))"

fun load_items :: "task_init \<Rightarrow> (string \<times> task_json) list \<Rightarrow> error + (string \<times> task) list" where
  "load_items Task_init [] = Inr []"
| "load_items Task_init ((tid, tdata) # rest) =
     (case from_dict Task_init tdata of
        Inl e \<Rightarrow> Inl e
      | Inr t \<Rightarrow> (case load_items Task_init rest of
                   Inl e \<Rightarrow> Inl e
                 | Inr ts \<Rightarrow> Inr ((tid, t) # ts)))"

definition load_tasks :: "task_init \<Rightarrow> tasks_file \<Rightarrow> error + (string \<times> task) list" where
  \<comment> \<open>\<open>EnhancedRoadmapTool.load_tasks\<close>: the dict is kept as the list of its items, in
      insertion order.\<close>
  "load_tasks Task_init f =
     (case f of
        Absent \<Rightarrow> Inr []
      | Malformed \<Rightarrow> Inl JSONDecodeError
      | Document data \<Rightarrow> load_items Task_init data)"

definition Task_to_dict :: "task \<Rightarrow> task_json" where
  \<comment> \<open>Modelled from the spec: \<open>Task.to_dict\<close> of the base class in \<open>roadmap.py\<close>, which is
      not among the source files. The spec (External interfaces): the task object has the
      fields of the data model, the id included. The three members of the subclass are set
      by \<open>to_dict\<close> below.\<close>
  "Task_to_dict t =
     \<lparr>j_id = Some (task_id t), j_title = Some (title t), j_status = Some (status t),
      j_priority = Some (priority t), j_project = Some (project t),
      j_description = Some (description t), j_milestone = Some (milestone t),
      j_created = Some (created t), j_updated = Some (updated t),
      j_details = None, j_links = None, j_subtasks = None\<rparr>"

definition to_dict :: "task \<Rightarrow> task_json" where
  \<comment> \<open>\<open>EnhancedTask.to_dict\<close>\<close>
  "to_dict t =
     (Task_to_dict t)
       \<lparr>j_details := Some (details t), j_links := Some (links t),
        j_subtasks := Some (subtasks t)\<rparr>"

definition save_tasks :: "bool \<Rightarrow> (string \<times> task) list \<Rightarrow> tasks_file \<Rightarrow> error + tasks_file" where
  \<comment> \<open>\<open>EnhancedRoadmapTool.save_tasks\<close>. \<open>writable\<close> tells whether \<open>open(tasks_file, 'w')\<close>
      succeeds; when it does not, the exception leaves the file as it was.\<close>
  "save_tasks writable ts f =
     (let data = map (\<lambda>(tid, t). (tid, to_dict t)) ts
      in if writable then Inr (Document data) else Inl (OSError ''open''))"

text \<open>
  What the spec says the file holds (External interfaces): for each task of the collection,
  in order, its id and a task object whose members are the fields of the task, the id
  among them. \<open>file_holds\<close> states it without \<open>to_dict\<close>; \<open>file_entry\<close> reads one member of
  the file.
\<close>

definition holds_task :: "task_json \<Rightarrow> task \<Rightarrow> bool" where
  "holds_task j t =
     (j_id j = Some (task_id t) \<and> j_title j = Some (title t) \<and> j_status j = Some (status t) \<and>
      j_priority j = Some (priority t) \<and> j_project j = Some (project t) \<and>
      j_description j = Some (description t) \<and> j_milestone j = Some (milestone t) \<and>
      j_created j = Some (created t) \<and> j_updated j = Some (updated t) \<and>
      j_details j = Some (details t) \<and> j_links j = Some (links t) \<and>
      j_subtasks j = Some (subtasks t))"

definition file_holds :: "tasks_file \<Rightarrow> (string \<times> task) list \<Rightarrow> bool" where
  "file_holds f ts =
     (case f of
        Document d \<Rightarrow> list_all2 (\<lambda>(k, j) (tid, t). k = tid \<and> holds_task j t) d ts
      | _ \<Rightarrow> False)"

definition file_entry :: "tasks_file \<Rightarrow> nat \<Rightarrow> (string \<times> task_json) option" where
  "file_entry f i =
     (case f of
        Document d \<Rightarrow> if i < length d then Some (d ! i) else None
      | _ \<Rightarrow> None)"

definition saved_members ::
  "tasks_file \<Rightarrow> nat \<Rightarrow> (string \<times> string option \<times> string option) option" where
  \<comment> \<open>the key and the members \<open>status\<close> and \<open>updated\<close> of the \<open>i\<close>-th entry of the file\<close>
  "saved_members f i = map_option (\<lambda>(k, j). (k, j_status j, j_updated j)) (file_entry f i)"

definition viewer_load_tasks :: "tasks_file \<Rightarrow> error + (string \<times> task_json) list" where
  \<comment> \<open>\<open>ModernRoadmapViewer.load_tasks\<close> (roadmap-modern.py): the raw dict of the file\<close>
  "viewer_load_tasks f =
     (case f of
        Absent \<Rightarrow> Inr []
      | Malformed \<Rightarrow> Inl JSONDecodeError
      | Document data \<Rightarrow> Inr data)"

section \<open>Panel mode: filter, sort and the key loop (roadmap-enhanced.py)\<close>

record tui =
  tasks :: "(string \<times> task) list"
  disk :: tasks_file
  selected_index :: nat
  scroll_offset :: int
  filter_status :: "string option"
  filter_priority :: "string option"
  filter_milestone :: "string option"
  view_mode :: string

text \<open>
  \<open>tasks\<close> is \<open>self.tool.tasks\<close>, a dict from ids to task objects, as the list of its
  items; \<open>disk\<close> is the content of \<open>tasks.json\<close>. The task objects are shared between the
  dict and the list that \<open>get_filtered_tasks\<close> returns: a reference to a task object is
  modelled as the position of its item in \<open>tasks\<close>, and \<open>task_at\<close> reads the object.
\<close>

definition task_at :: "tui \<Rightarrow> nat \<Rightarrow> task" where
  "task_at s r = snd (tasks s ! r)"

definition truthy :: "string option \<Rightarrow> bool" where
  \<comment> \<open>\<open>if self.filter_status:\<close> on an \<open>Optional[str]\<close>: \<open>None\<close> and the empty string are
      false.\<close>
  "truthy f = (case f of None \<Rightarrow> False | Some v \<Rightarrow> v \<noteq> [])"

definition priority_order :: "string \<Rightarrow> nat" where
  \<comment> \<open>\<open>priority_order.get(p, 4)\<close>\<close>
  "priority_order p =
     (if p = ''critical'' then 0 else if p = ''high'' then 1
      else if p = ''medium'' then 2 else if p = ''low'' then 3 else 4)"

definition sort_key_of :: "task \<Rightarrow> nat \<times> string \<times> string" where
  "sort_key_of t = (priority_order (priority t), milestone t, task_id t)"

definition filter_sort ::
  "('r \<Rightarrow> task) \<Rightarrow> string option \<Rightarrow> string option \<Rightarrow> string option \<Rightarrow> 'r list \<Rightarrow> 'r list"
where
  \<comment> \<open>The body of \<open>get_filtered_tasks\<close> on a list of references read through \<open>obj\<close>.
      \<open>list.sort(key=...)\<close> is a stable sort, as \<open>sort_key\<close> is.\<close>
  "filter_sort obj fs fp fm refs =
     (let ts = refs;
          ts = (if truthy fs then filter (\<lambda>t. Some (status (obj t)) = fs) ts else ts);
          ts = (if truthy fp then filter (\<lambda>t. Some (priority (obj t)) = fp) ts else ts);
          ts = (if truthy fm then filter (\<lambda>t. Some (milestone (obj t)) = fm) ts else ts)
      in sort_key (\<lambda>t. sort_key_of (obj t)) ts)"

definition get_filtered_tasks :: "tui \<Rightarrow> nat list" where
  \<comment> \<open>\<open>EnhancedRoadmapTUI.get_filtered_tasks\<close>: the references of the tasks shown, in
      display order.\<close>
  "get_filtered_tasks s =
     filter_sort (task_at s) (filter_status s) (filter_priority s) (filter_milestone s)
       [0..<length (tasks s)]"

definition status_cycle :: "string list" where
  "status_cycle = [''todo'', ''in_progress'', ''done'', ''todo'']"

fun list_index :: "'a \<Rightarrow> 'a list \<Rightarrow> nat" where
  \<comment> \<open>\<open>xs.index(x)\<close> for an \<open>x\<close> that is in \<open>xs\<close>: the first position\<close>
  "list_index x [] = 0"
| "list_index x (y # ys) = (if x = y then 0 else Suc (list_index x ys))"

definition next_status :: "string \<Rightarrow> string" where
  "next_status st =
     (let current_idx = (if st \<in> set status_cycle then list_index st status_cycle else 0)
      in status_cycle ! (current_idx + 1))"

text \<open>
  What one pass of the \<open>while True\<close> loop of \<open>run\<close> reads from outside: the height of
  the terminal (\<open>getmaxyx\<close>), the key (\<open>getch\<close>), the clock
  (\<open>datetime.now().isoformat()\<close>) and whether \<open>tasks.json\<close> can be opened for writing.
  Drawing does not change the state and is not modelled.
\<close>

record pass_env =
  height :: int
  key :: int
  now :: string
  writable :: bool

datatype 'a outcome = Quit | Continue 'a | Raised error

definition KEY_UP :: int where "KEY_UP = 259"
definition KEY_DOWN :: int where "KEY_DOWN = 258"

definition toggle_status :: "pass_env \<Rightarrow> tui \<Rightarrow> tui outcome" where
  \<comment> \<open>the branch \<open>key == ord(' ')\<close>\<close>
  "toggle_status e s =
     (let ts = get_filtered_tasks s
      in if ts \<noteq> [] \<and> selected_index s < length ts
         then let r = ts ! selected_index s;
                  t = (task_at s r)\<lparr>status := next_status (status (task_at s r)), updated := now e\<rparr>;
                  s1 = s\<lparr>tasks := (tasks s)[r := (fst (tasks s ! r), t)]\<rparr>
              in case save_tasks (writable e) (tasks s1) (disk s1) of
                   Inl err \<Rightarrow> Raised err
                 | Inr f \<Rightarrow> Continue (s1\<lparr>disk := f\<rparr>)
         else Continue s)"

definition run_pass :: "pass_env \<Rightarrow> tui \<Rightarrow> tui outcome" where
  "run_pass e s =
     (let ts = get_filtered_tasks s;
          content_height = height e - 4
      in if key e = 113 then Quit
         else if key e = KEY_UP then
           (if selected_index s > 0
            then let s1 = s\<lparr>selected_index := selected_index s - 1\<rparr>
                 in Continue (if int (selected_index s1) < scroll_offset s1
                              then s1\<lparr>scroll_offset := int (selected_index s1)\<rparr> else s1)
            else Continue s)
         else if key e = KEY_DOWN then
           (if int (selected_index s) < int (length ts) - 1
            then let s1 = s\<lparr>selected_index := selected_index s + 1\<rparr>
                 in Continue (if int (selected_index s1) \<ge> scroll_offset s1 + content_height - 2
                              then s1\<lparr>scroll_offset := int (selected_index s1) - content_height + 3\<rparr>
                              else s1)
            else Continue s)
         else if key e = 118 then
           Continue (s\<lparr>view_mode := (if view_mode s = ''split'' then ''list'' else ''split'')\<rparr>)
         else if key e = 32 then toggle_status e s
         else if key e = 102 then
           Continue (s\<lparr>filter_status := None, filter_priority := None, filter_milestone := None,
                        selected_index := 0, scroll_offset := 0\<rparr>)
         else Continue s)"

definition initial :: "(string \<times> task) list \<Rightarrow> tasks_file \<Rightarrow> tui" where
  \<comment> \<open>the state after \<open>EnhancedRoadmapTUI.__init__\<close>, with the loaded tasks \<open>ts\<close>\<close>
  "initial ts f =
     \<lparr>tasks = ts, disk = f, selected_index = 0, scroll_offset = 0,
      filter_status = None, filter_priority = None, filter_milestone = None,
      view_mode = ''split''\<rparr>"

inductive reachable :: "tui \<Rightarrow> bool" where
  start: "reachable (initial ts f)"
| pass: "reachable s \<Longrightarrow> run_pass e s = Continue s' \<Longrightarrow> reachable s'"

subsection \<open>The state after a press of the space key\<close>

text \<open>
  \<open>toggled e s\<close> names the state that the branch for the space key builds when a task is
  selected and the file can be written; the lemmas below show that \<open>run_pass\<close> returns it.
\<close>

definition toggled :: "pass_env \<Rightarrow> tui \<Rightarrow> tui" where
  "toggled e s =
     (let r = get_filtered_tasks s ! selected_index s;
          ts = (tasks s)[r := (fst (tasks s ! r),
                  (task_at s r)\<lparr>status := next_status (status (task_at s r)), updated := now e\<rparr>)]
      in s\<lparr>tasks := ts, disk := Document (map (\<lambda>(tid, t). (tid, to_dict t)) ts)\<rparr>)"

section \<open>Report mode (roadmap-modern.py)\<close>

subsection \<open>Paths and linked documents\<close>

text \<open>
  \<open>pathlib\<close> on a POSIX system: a path is its root (\<open>/\<close>, \<open>//\<close> or none) and its
  components; empty components and \<open>.\<close> are dropped when a string is parsed.
\<close>

record path =
  path_root :: string
  path_parts :: "string list"

definition parse_path :: "string \<Rightarrow> path" where
  "parse_path s =
     \<lparr>path_root =
        (if startswith s ''//'' \<and> \<not> startswith s ''///'' then ''//''
         else if startswith s ''/'' then ''/'' else ''''),
      path_parts = filter (\<lambda>p. p \<noteq> [] \<and> p \<noteq> ''.'') (split_on CHR ''/'' s)\<rparr>"

definition path_str :: "path \<Rightarrow> string" where
  \<comment> \<open>\<open>str(p)\<close>\<close>
  "path_str p =
     (if path_root p = [] \<and> path_parts p = [] then ''.''
      else path_root p @ join ''/'' (path_parts p))"

definition path_parent :: "path \<Rightarrow> path" where
  \<comment> \<open>\<open>p.parent\<close>\<close>
  "path_parent p = p\<lparr>path_parts := butlast (path_parts p)\<rparr>"

definition path_join :: "path \<Rightarrow> string \<Rightarrow> path" where
  \<comment> \<open>\<open>p / s\<close>: an absolute \<open>s\<close> replaces \<open>p\<close>\<close>
  "path_join p s =
     (let q = parse_path s
      in if path_root q \<noteq> [] then q else p\<lparr>path_parts := path_parts p @ path_parts q\<rparr>)"

datatype document = NoAnswer string | Missing | Unreadable string | Text string

text \<open>
  A linked document as \<open>load_prd_content\<close> meets it: \<open>NoAnswer msg\<close> when
  \<open>prd_path.exists()\<close> itself raises \<open>OSError\<close> with text \<open>msg\<close> (a name too long, a
  directory of the path that may not be searched), \<open>Missing\<close> when it answers false,
  \<open>Unreadable msg\<close> when \<open>open\<close> or \<open>read\<close> raises an exception whose text is \<open>msg\<close>,
  \<open>Text content\<close> otherwise. The test \<open>prd_path.exists()\<close> stands before the \<open>try\<close>:
  its exception leaves \<open>load_prd_content\<close>, the exceptions of \<open>open\<close>, \<open>read\<close> and the
  searches are caught and returned as text.

  The three searches of \<open>load_prd_content\<close> are made by the library \<open>re\<close> with the task id
  pasted into the pattern; they are parameters of the model. Each takes the task id and the
  line, and returns \<open>Inl msg\<close> when the pattern does not compile (\<open>re.error\<close> with text
  \<open>msg\<close>) and \<open>Inr found\<close> otherwise.
\<close>

record re_engine =
  tag_search :: "string \<Rightarrow> string \<Rightarrow> string + bool"
  header_search :: "string \<Rightarrow> string \<Rightarrow> string + bool"
  id_search :: "string \<Rightarrow> string \<Rightarrow> string + bool"

record viewer =
  viewer_tasks :: "(string \<times> task_json) list"
  workspace_root :: string
  documents :: "string \<Rightarrow> document"
  re :: re_engine

definition resolve_prd :: "string \<Rightarrow> string \<Rightarrow> string" where
  \<comment> \<open>the text of \<open>prd_path\<close>\<close>
  "resolve_prd root url =
     path_str (path_join (path_parent (parse_path root))
                 (if startswith url ''../'' then drop 3 url else url))"

definition heading_level :: "string \<Rightarrow> nat" where
  \<comment> \<open>\<open>len(line.split(' ')[0])\<close>\<close>
  "heading_level line = length (hd (split_on CHR '' '' line))"

fun scan_lines ::
  "re_engine \<Rightarrow> string \<Rightarrow> string list \<Rightarrow> string list \<Rightarrow> bool \<Rightarrow> nat \<Rightarrow> string + string list"
where
  \<comment> \<open>the \<open>for i, line in enumerate(lines)\<close> loop, with its state \<open>task_content\<close>,
      \<open>capturing\<close> and \<open>section_level\<close>; \<open>Inl msg\<close> is an exception raised by a search\<close>
  "scan_lines rx tid [] task_content capturing section_level = Inr task_content"
| "scan_lines rx tid (line # rest) task_content capturing section_level =
     (case tag_search rx tid line of
        Inl msg \<Rightarrow> Inl msg
      | Inr tag \<Rightarrow>
          (case (if tag then Inr True else header_search rx tid line) of
             Inl msg \<Rightarrow> Inl msg
           | Inr True \<Rightarrow>
               scan_lines rx tid rest (task_content @ [line]) True
                 (if startswith line ''#'' then heading_level line else section_level)
           | Inr False \<Rightarrow>
               if capturing then
                 (if startswith line ''#'' \<and> heading_level line \<le> section_level \<and> section_level > 0
                  then (case id_search rx tid line of
                          Inl msg \<Rightarrow> Inl msg
                        | Inr found \<Rightarrow>
                            if \<not> found then Inr task_content
                            else scan_lines rx tid rest (task_content @ [line]) capturing section_level)
                  else scan_lines rx tid rest (task_content @ [line]) capturing section_level)
               else scan_lines rx tid rest task_content capturing section_level))"

definition load_prd_content :: "viewer \<Rightarrow> string \<Rightarrow> string \<Rightarrow> error + string" where
  "load_prd_content v url tid =
     (let prd_path = resolve_prd (workspace_root v) url
      in case documents v prd_path of
           NoAnswer msg \<Rightarrow> Inl (OSError msg)
         | Missing \<Rightarrow> Inr (''PRD file not found: '' @ prd_path)
         | Unreadable msg \<Rightarrow> Inr (''Error reading PRD: '' @ msg)
         | Text content \<Rightarrow>
             (case scan_lines (re v) tid (split_on (CHR 0x0A) content) [] False 0 of
                Inl msg \<Rightarrow> Inr (''Error reading PRD: '' @ msg)
              | Inr task_content \<Rightarrow> Inr (join [CHR 0x0A] task_content)))"

subsection \<open>Output and input\<close>

text \<open>
  What the viewer prints is modelled as a list of events, one for each message; colours,
  rules, blank lines and the layout of a card are left out, and the terminal is taken to
  answer \<open>os.get_terminal_size()\<close> with a width that the layout fits. \<open>stdin\<close> holds
  the lines the user will type; \<open>input\<close> raises \<open>EOFError\<close> when there is none left.
\<close>

datatype event =
    ClearScreen
  | Header
  | Stats
  | MenuOptions
  | Prompt string
  | TaskNotFound string
  | DetailsTitle
  | Card string task_json bool
  | ImplementationDetails string string
  | AdditionalNotes string
  | SubtasksTitle
  | Subtask string task_json
  | MilestoneHeader string
  | SelectionNumber nat
  | SelectTaskHint
  | InvalidSelection
  | StatusMenu
  | PriorityMenu
  | TasksWithStatus string
  | TasksWithPriority string
  | NoTasksFound
  | SearchTitle
  | SearchResults string
  | Goodbye

record io =
  stdin :: "string list"
  out :: "event list"

definition print :: "event list \<Rightarrow> io \<Rightarrow> io" where
  "print evs w = w\<lparr>out := out w @ evs\<rparr>"

definition input :: "string \<Rightarrow> io \<Rightarrow> error + string \<times> io" where
  "input prompt w =
     (case stdin w of
        [] \<Rightarrow> Inl EOFError
      | l # rest \<Rightarrow> Inr (l, w\<lparr>stdin := rest, out := out w @ [Prompt prompt]\<rparr>))"

subsection \<open>The detail view\<close>

definition prd_step ::
  "viewer \<Rightarrow> string \<Rightarrow> (string \<times> string) list \<Rightarrow> link \<Rightarrow> error + (string \<times> string) list" where
  \<comment> \<open>one pass of the loop \<open>for link in task['links']\<close> of \<open>show_task_detail\<close>: both
      branches load the document and apply the same test; a technical document goes to the
      front of \<open>prd_contents\<close>, any other to the end\<close>
  "prd_step v tid acc l =
     (if contains (link_name l) ''Technical PRD'' \<or> contains (lower (link_name l)) ''technical''
      then (case load_prd_content v (link_url l) tid of
              Inl e \<Rightarrow> Inl e
            | Inr content \<Rightarrow>
                Inr (if content \<noteq> [] \<and> content \<noteq> ''PRD file not found: '' @ link_url l
                     then (link_name l, content) # acc else acc))
      else (case load_prd_content v (link_url l) tid of
              Inl e \<Rightarrow> Inl e
            | Inr content \<Rightarrow>
                Inr (if content \<noteq> [] \<and> content \<noteq> ''PRD file not found: '' @ link_url l
                     then acc @ [(link_name l, content)] else acc)))"

fun prd_loop ::
  "viewer \<Rightarrow> string \<Rightarrow> (string \<times> string) list \<Rightarrow> link list \<Rightarrow> error + (string \<times> string) list" where
  "prd_loop v tid acc [] = Inr acc"
| "prd_loop v tid acc (l # ls) =
     (case prd_step v tid acc l of
        Inl e \<Rightarrow> Inl e
      | Inr acc' \<Rightarrow> prd_loop v tid acc' ls)"

definition prd_contents :: "viewer \<Rightarrow> string \<Rightarrow> link list \<Rightarrow> error + (string \<times> string) list" where
  "prd_contents v tid lks = prd_loop v tid [] lks"

definition detail_sections :: "viewer \<Rightarrow> task_json \<Rightarrow> (string \<times> string) list \<Rightarrow> event list" where
  \<comment> \<open>what \<open>show_task_detail\<close> prints after the card, once \<open>prd_contents\<close> is built\<close>
  "detail_sections v t contents =
     map (\<lambda>(doc_name, content). ImplementationDetails doc_name content)
       (filter (\<lambda>(doc_name, content). content \<noteq> []) contents) @
     (case j_details t of
        None \<Rightarrow> []
      | Some d \<Rightarrow> if d \<noteq> [] \<and> length d > 100 then [AdditionalNotes d] else []) @
     (case j_subtasks t of
        None \<Rightarrow> []
      | Some subs \<Rightarrow>
          if subs \<noteq> [] \<and> length subs > 0
          then SubtasksTitle #
               concat (map (\<lambda>sid. case map_of (viewer_tasks v) sid of
                                      None \<Rightarrow> []
                                    | Some st \<Rightarrow> [Subtask sid st]) subs)
          else [])"

definition detail_view :: "viewer \<Rightarrow> string \<Rightarrow> task_json \<Rightarrow> error + event list" where
  \<comment> \<open>what \<open>show_task_detail\<close> prints for a task of the collection, or the exception
      that leaves it while the linked documents are loaded\<close>
  "detail_view v tid t =
     (case (case j_links t of None \<Rightarrow> Inr [] | Some lks \<Rightarrow> prd_contents v tid lks) of
        Inl e \<Rightarrow> Inl e
      | Inr contents \<Rightarrow>
          Inr ([ClearScreen, Header, DetailsTitle, Card tid t True] @ detail_sections v t contents))"

definition show_task_detail :: "viewer \<Rightarrow> string \<Rightarrow> bool \<Rightarrow> io \<Rightarrow> error + io" where
  "show_task_detail v tid wait_for_input w =
     (case map_of (viewer_tasks v) tid of
        None \<Rightarrow> Inr (print [TaskNotFound tid] w)
      | Some t \<Rightarrow>
          (case detail_view v tid t of
             Inl e \<Rightarrow> Inl e
           | Inr view \<Rightarrow>
               let w1 = print view w
               in if wait_for_input
                  then (case input ''Press Enter to continue...'' w1 of
                          Inl e \<Rightarrow> Inl e
                        | Inr (l, w2) \<Rightarrow> Inr w2)
                  else Inr w1))"

subsection \<open>The listing by milestone\<close>

definition milestone_key :: "task_json \<Rightarrow> string" where
  \<comment> \<open>\<open>task.get('milestone', 'Unassigned')\<close>\<close>
  "milestone_key t = pop (j_milestone t) ''Unassigned''"

fun add_to_bucket :: "string \<Rightarrow> 'a \<Rightarrow> (string \<times> 'a list) list \<Rightarrow> (string \<times> 'a list) list" where
  \<comment> \<open>\<open>if m not in milestones: milestones[m] = []\<close>, then \<open>milestones[m].append(x)\<close>\<close>
  "add_to_bucket m x [] = [(m, [x])]"
| "add_to_bucket m x ((k, xs) # rest) =
     (if k = m then (k, xs @ [x]) # rest else (k, xs) # add_to_bucket m x rest)"

definition group_by_milestone ::
  "(string \<times> task_json) list \<Rightarrow> (string \<times> (string \<times> task_json) list) list" where
  "group_by_milestone ts = foldl (\<lambda>ms (tid, t). add_to_bucket (milestone_key t) (tid, t) ms) [] ts"

definition card_key :: "string \<times> task_json \<Rightarrow> nat \<times> string" where
  \<comment> \<open>the sort key inside a bucket\<close>
  "card_key x = (case x of (tid, t) \<Rightarrow> (priority_order (pop (j_priority t) ''low''), tid))"

definition milestone_buckets ::
  "(string \<times> task_json) list \<Rightarrow> (string \<times> (string \<times> task_json) list) list" where
  \<comment> \<open>the buckets in the order of \<open>sorted(milestones.keys())\<close>, each with its tasks in the
      order in which the cards are printed\<close>
  "milestone_buckets ts =
     (let milestones = group_by_milestone ts
      in map (\<lambda>m. (m, sort_key card_key (pop (map_of milestones m) [])))
           (sort (map fst milestones)))"

fun render_cards :: "bool \<Rightarrow> nat \<Rightarrow> (string \<times> task_json) list \<Rightarrow> event list" where
  "render_cards interactive n [] = []"
| "render_cards interactive n ((tid, t) # rest) =
     (if interactive then [SelectionNumber n] else []) @ [Card tid t False] @
     render_cards interactive (if interactive then Suc n else n) rest"

fun render_buckets ::
  "bool \<Rightarrow> nat \<Rightarrow> (string \<times> (string \<times> task_json) list) list \<Rightarrow> event list" where
  "render_buckets interactive n [] = []"
| "render_buckets interactive n ((m, ts) # rest) =
     MilestoneHeader m # render_cards interactive n ts @
     render_buckets interactive (if interactive then n + length ts else n) rest"

definition list_tasks_by_milestone ::
  "viewer \<Rightarrow> bool \<Rightarrow> io \<Rightarrow> (string \<times> string) list option \<times> io" where
  \<comment> \<open>returns \<open>task_map\<close> (from the printed numbers, as strings, to the task ids) when
      interactive, \<open>None\<close> otherwise\<close>
  "list_tasks_by_milestone v interactive w =
     (let buckets = milestone_buckets (viewer_tasks v);
          shown = concat (map snd buckets);
          task_map = zip (map str_nat [1..<Suc (length shown)]) (map fst shown)
      in (if interactive then Some task_map else None,
          print (render_buckets interactive 1 buckets) w))"

subsection \<open>The filters, the search and the menu\<close>

definition cards :: "(string \<times> task_json) list \<Rightarrow> event list" where
  "cards ts = map (\<lambda>(tid, t). Card tid t False) ts"

definition pick_option :: "string list \<Rightarrow> string \<Rightarrow> error + string option" where
  \<comment> \<open>\<open>choice.isdigit() and 1 <= int(choice) <= len(options)\<close>, then
      \<open>options[int(choice) - 1]\<close>; \<open>Inl\<close> when \<open>int\<close> raises\<close>
  "pick_option options choice =
     (if isdigit choice
      then (case py_int choice of
              Inl e \<Rightarrow> Inl e
            | Inr n \<Rightarrow> if 1 \<le> n \<and> n \<le> int (length options)
                      then Inr (Some (options ! nat (n - 1))) else Inr None)
      else Inr None)"

definition filter_by_status :: "viewer \<Rightarrow> io \<Rightarrow> error + io" where
  "filter_by_status v w =
     (let statuses = [''todo'', ''in_progress'', ''done'', ''blocked''];
          w1 = print [ClearScreen, Header, StatusMenu] w
      in case input ''Select status: '' w1 of
           Inl e \<Rightarrow> Inl e
         | Inr (l, w2) \<Rightarrow>
             (case pick_option statuses (strip l) of
                Inl e \<Rightarrow> Inl e
              | Inr None \<Rightarrow> Inr w2
              | Inr (Some selected_status) \<Rightarrow>
                  let filtered_tasks =
                        filter (\<lambda>(tid, t). j_status t = Some selected_status) (viewer_tasks v);
                      w3 = print ([TasksWithStatus selected_status] @ cards filtered_tasks @
                                  (if filtered_tasks = [] then [NoTasksFound] else [])) w2
                  in (case input ''Press Enter to continue...'' w3 of
                        Inl e \<Rightarrow> Inl e
                      | Inr (l', w4) \<Rightarrow> Inr w4)))"

definition filter_by_priority :: "viewer \<Rightarrow> io \<Rightarrow> error + io" where
  "filter_by_priority v w =
     (let priorities = [''critical'', ''high'', ''medium'', ''low''];
          w1 = print [ClearScreen, Header, PriorityMenu] w
      in case input ''Select priority: '' w1 of
           Inl e \<Rightarrow> Inl e
         | Inr (l, w2) \<Rightarrow>
             (case pick_option priorities (strip l) of
                Inl e \<Rightarrow> Inl e
              | Inr None \<Rightarrow> Inr w2
              | Inr (Some selected_priority) \<Rightarrow>
                  let filtered_tasks =
                        filter (\<lambda>(tid, t). j_priority t = Some selected_priority) (viewer_tasks v);
                      w3 = print ([TasksWithPriority selected_priority] @ cards filtered_tasks @
                                  (if filtered_tasks = [] then [NoTasksFound] else [])) w2
                  in (case input ''Press Enter to continue...'' w3 of
                        Inl e \<Rightarrow> Inl e
                      | Inr (l', w4) \<Rightarrow> Inr w4)))"

definition search_tasks :: "viewer \<Rightarrow> io \<Rightarrow> error + io" where
  "search_tasks v w =
     (let w1 = print [ClearScreen, Header, SearchTitle] w
      in case input ''Enter search term: '' w1 of
           Inl e \<Rightarrow> Inl e
         | Inr (l, w2) \<Rightarrow>
             let keyword = lower (strip l)
             in if keyword = [] then Inr w2
                else
                  let found_tasks =
                        filter (\<lambda>(tid, t).
                            list_ex (\<lambda>field. contains (lower field) keyword)
                              [pop (j_title t) '''', pop (j_description t) '''', pop (j_details t) ''''])
                          (viewer_tasks v);
                      w3 = print ([SearchResults keyword] @ cards found_tasks @
                                  (if found_tasks = [] then [NoTasksFound] else [])) w2
                  in (case input ''Press Enter to continue...'' w3 of
                        Inl e \<Rightarrow> Inl e
                      | Inr (l', w4) \<Rightarrow> Inr w4))"

definition select_task :: "viewer \<Rightarrow> bool \<Rightarrow> io \<Rightarrow> error + io" where
  \<comment> \<open>the listing followed by the question for a task number, as in option 1 of the menu
      (\<open>in_menu\<close>) and under \<open>--list\<close>; in the menu an invalid selection waits for Enter\<close>
  "select_task v in_menu w =
     (let w1 = print [ClearScreen, Header] w;
          (task_map, w2) = list_tasks_by_milestone v True w1;
          w3 = print [SelectTaskHint] w2
      in case input ''Select task: '' w3 of
           Inl e \<Rightarrow> Inl e
         | Inr (l, w4) \<Rightarrow>
             let selection = strip l
             in if selection \<noteq> [] \<and> map_of (pop task_map []) selection \<noteq> None
                then show_task_detail v (pop (map_of (pop task_map []) selection) []) True w4
                else if selection \<noteq> []
                then let w5 = print [InvalidSelection] w4
                     in if in_menu
                        then (case input ''Press Enter to continue...'' w5 of
                                Inl e \<Rightarrow> Inl e
                              | Inr (l', w6) \<Rightarrow> Inr w6)
                        else Inr w5
                else Inr w4)"

definition menu_pass :: "viewer \<Rightarrow> io \<Rightarrow> error + bool \<times> io" where
  \<comment> \<open>one pass of the \<open>while True\<close> loop of \<open>interactive_menu\<close>; the flag tells whether
      the loop goes on\<close>
  "menu_pass v w =
     (let w1 = print [ClearScreen, Header, Stats, MenuOptions] w
      in case input ''Select option: '' w1 of
           Inl e \<Rightarrow> Inl e
         | Inr (l, w2) \<Rightarrow>
             let choice = lower (strip l)
             in if choice = ''1'' then
                  (case select_task v True w2 of Inl e \<Rightarrow> Inl e | Inr w3 \<Rightarrow> Inr (True, w3))
                else if choice = ''2'' then
                  (case input ''Enter task ID: '' w2 of
                     Inl e \<Rightarrow> Inl e
                   | Inr (l2, w3) \<Rightarrow>
                       (case show_task_detail v (upper (strip l2)) True w3 of
                          Inl e \<Rightarrow> Inl e
                        | Inr w4 \<Rightarrow>
                            (case input ''Press Enter to continue...'' w4 of
                               Inl e \<Rightarrow> Inl e
                             | Inr (l3, w5) \<Rightarrow> Inr (True, w5))))
                else if choice = ''3'' then
                  (case filter_by_status v w2 of Inl e \<Rightarrow> Inl e | Inr w3 \<Rightarrow> Inr (True, w3))
                else if choice = ''4'' then
                  (case filter_by_priority v w2 of Inl e \<Rightarrow> Inl e | Inr w3 \<Rightarrow> Inr (True, w3))
                else if choice = ''5'' then
                  (case search_tasks v w2 of Inl e \<Rightarrow> Inl e | Inr w3 \<Rightarrow> Inr (True, w3))
                else if choice = ''q'' then Inr (False, print [Goodbye] w2)
                else Inr (True, w2))"

lemma stdin_print: "stdin (print evs w) = stdin w"
  by (simp add: print_def)

lemma stdin_input: "input p w = Inr (l, w') \<Longrightarrow> stdin w = l # stdin w'"
  by (auto simp: input_def split: list.splits)

lemma stdin_show_task_detail:
  "show_task_detail v tid b w = Inr w' \<Longrightarrow> length (stdin w') \<le> length (stdin w)"
  by (auto simp: show_task_detail_def stdin_print Let_def
           split: option.splits if_splits sum.splits dest!: stdin_input)

lemma stdin_filter_by_status:
  "filter_by_status v w = Inr w' \<Longrightarrow> length (stdin w') \<le> length (stdin w)"
  by (auto simp: filter_by_status_def stdin_print Let_def
           split: option.splits if_splits sum.splits dest!: stdin_input)

lemma stdin_filter_by_priority:
  "filter_by_priority v w = Inr w' \<Longrightarrow> length (stdin w') \<le> length (stdin w)"
  by (auto simp: filter_by_priority_def stdin_print Let_def
           split: option.splits if_splits sum.splits dest!: stdin_input)

lemma stdin_search_tasks:
  "search_tasks v w = Inr w' \<Longrightarrow> length (stdin w') \<le> length (stdin w)"
  by (auto simp: search_tasks_def stdin_print Let_def
           split: option.splits if_splits sum.splits dest!: stdin_input)

lemma stdin_list_tasks_by_milestone:
  "stdin (snd (list_tasks_by_milestone v b w)) = stdin w"
  by (simp add: list_tasks_by_milestone_def Let_def stdin_print)

lemma stdin_select_task:
  "select_task v b w = Inr w' \<Longrightarrow> length (stdin w') \<le> length (stdin w)"
  by (auto simp: select_task_def stdin_print Let_def stdin_list_tasks_by_milestone
           split: option.splits if_splits sum.splits prod.splits
           dest!: stdin_input stdin_show_task_detail
           dest: arg_cong[where f = "\<lambda>x. stdin (snd x)"])

lemma stdin_menu_pass:
  "menu_pass v w = Inr (go_on, w') \<Longrightarrow> length (stdin w') < length (stdin w)"
  by (auto simp: menu_pass_def stdin_print Let_def
           split: option.splits if_splits sum.splits prod.splits
           dest!: stdin_input stdin_show_task_detail stdin_select_task stdin_filter_by_status
                  stdin_filter_by_priority stdin_search_tasks)

function interactive_menu :: "viewer \<Rightarrow> io \<Rightarrow> error + io" where
  "interactive_menu v w =
     (case menu_pass v w of
        Inl e \<Rightarrow> Inl e
      | Inr (go_on, w') \<Rightarrow> if go_on then interactive_menu v w' else Inr w')"
  by pat_completeness auto
termination
  by (relation "measure (\<lambda>(v, w). length (stdin w))") (auto dest: stdin_menu_pass)

declare interactive_menu.simps [simp del]

subsection \<open>The command line\<close>

record args =
  arg_list :: bool
  arg_task :: "string option"
  arg_status :: "string option"
  arg_priority :: "string option"

definition main ::
  "string \<Rightarrow> (string \<Rightarrow> document) \<Rightarrow> re_engine \<Rightarrow> tasks_file \<Rightarrow> args \<Rightarrow> io \<Rightarrow> error + io" where
  \<comment> \<open>\<open>main\<close> of roadmap-modern.py, with the parsed arguments; \<open>root\<close> is
      \<open>WORKSPACE_ROOT\<close>\<close>
  "main root docs rx f a w =
     (case viewer_load_tasks f of
        Inl e \<Rightarrow> Inl e
      | Inr ts \<Rightarrow>
          let v = \<lparr>viewer_tasks = ts, workspace_root = root, documents = docs, re = rx\<rparr>
          in if arg_list a then select_task v False w
             else if truthy (arg_task a) then
               show_task_detail v (upper (pop (arg_task a) [])) True w
             else if truthy (arg_status a) \<or> truthy (arg_priority a) then
               (let w1 = print [ClearScreen, Header] w;
                    filtered = viewer_tasks v;
                    filtered = (if truthy (arg_status a)
                                then filter (\<lambda>(tid, t). j_status t = arg_status a) filtered
                                else filtered);
                    filtered = (if truthy (arg_priority a)
                                then filter (\<lambda>(tid, t). j_priority t = arg_priority a) filtered
                                else filtered)
                in Inr (print (cards filtered) w1))
             else interactive_menu v w)"

section \<open>Example data\<close>

subsection \<open>A collection for the panel mode\<close>

definition example_task :: "string \<Rightarrow> string \<Rightarrow> string \<Rightarrow> string \<Rightarrow> task" where
  "example_task tid st pri ms =
     \<lparr>task_id = tid, title = ''A task'', status = st, priority = pri, project = ''workspace'',
      description = '''', milestone = ms, created = ''2025-01-01T00:00:00'',
      updated = ''2025-01-01T00:00:00'', details = '''', links = [], subtasks = []\<rparr>"

definition example_tasks :: "(string \<times> task) list" where
  \<comment> \<open>T1 and T2 are the collection of the spec's scenario; T3 has no milestone.\<close>
  "example_tasks =
     [(''T1'', example_task ''T1'' ''todo'' ''high'' ''M1''),
      (''T2'', example_task ''T2'' ''done'' ''critical'' ''M1''),
      (''T3'', example_task ''T3'' ''blocked'' ''low'' '''')]"

subsection \<open>Documents and a viewer for the report mode\<close>

fun literal_tag :: "string \<Rightarrow> string \<Rightarrow> bool" where
  "literal_tag tid [] = False"
| "literal_tag tid (c # cs) =
     ((startswith (c # cs) ''[task-id:'' \<and>
       startswith (dropWhile is_space (drop 9 (c # cs))) (tid @ '']'')) \<or>
      literal_tag tid cs)"

definition literal_re :: re_engine where
  \<comment> \<open>The three searches for a task id made of letters, digits, \<open>-\<close> and \<open>_\<close> on ASCII
      text, ignoring case: the tag \<open>[task-id: ID]\<close> with optional whitespace before the
      id; the header pattern, which ends in a newline and so is never found in a line of
      \<open>content.split('\n')\<close>; and the id anywhere in the line.\<close>
  "literal_re =
     \<lparr>tag_search = (\<lambda>tid line. Inr (literal_tag (lower tid) (lower line))),
      header_search = (\<lambda>tid line. Inr False),
      id_search = (\<lambda>tid line. Inr (contains (lower line) (lower tid)))\<rparr>"

definition strict_re :: re_engine where
  \<comment> \<open>\<open>literal_re\<close>, and the id \<open>T(1\<close>, whose parenthesis is not closed: each of the
      three patterns with this id does not compile, and \<open>re\<close> raises \<open>error\<close> with these
      texts\<close>
  "strict_re =
     \<lparr>tag_search = (\<lambda>tid line.
        if tid = ''T(1'' then Inl ''missing ), unterminated subpattern at position 14''
        else tag_search literal_re tid line),
      header_search = (\<lambda>tid line.
        if tid = ''T(1'' then Inl ''missing ), unterminated subpattern at position 14''
        else header_search literal_re tid line),
      id_search = (\<lambda>tid line.
        if tid = ''T(1'' then Inl ''missing ), unterminated subpattern at position 1''
        else id_search literal_re tid line)\<rparr>"

definition no_members :: task_json where
  \<comment> \<open>the JSON object \<open>{}\<close>\<close>
  "no_members =
     \<lparr>j_id = None, j_title = None, j_status = None, j_priority = None, j_project = None,
      j_description = None, j_milestone = None, j_created = None, j_updated = None,
      j_details = None, j_links = None, j_subtasks = None\<rparr>"

definition example_docs :: "string \<Rightarrow> document" where
  "example_docs p =
     (if p = ''/ws/sealed/prd.md'' then NoAnswer ''[Errno 13] Permission denied''
      else if p = ''/ws/prd/locked.md'' then Unreadable ''[Errno 13] Permission denied''
      else if p = ''/ws/prd/other.md'' then
        Text (''# T9 other task'' @ [CHR 0x0A] @ ''[task-id: T9]'' @ [CHR 0x0A] @ ''text'')
      else if p = ''/ws/prd/tech.md'' then
        Text (''intro'' @ [CHR 0x0A] @ ''## Build [task-id: T1]'' @ [CHR 0x0A] @ ''step one'' @
              [CHR 0x0A] @ ''## Next [task-id: T2]'' @ [CHR 0x0A] @ ''step two'')
      else Missing)"

definition two_links_task :: task_json where
  \<comment> \<open>a task with a document that does not mention it and a missing document given by an
      absolute path\<close>
  "two_links_task =
     no_members
       \<lparr>j_title := Some ''A task'',
        j_links := Some [\<lparr>link_name = ''Technical PRD'', link_url = ''../prd/other.md''\<rparr>,
                         \<lparr>link_name = ''Design notes'', link_url = ''/ws/prd/gone.md''\<rparr>]\<rparr>"

definition example_viewer :: "(string \<times> task_json) list \<Rightarrow> viewer" where
  "example_viewer ts =
     \<lparr>viewer_tasks = ts, workspace_root = ''/ws/docs'', documents = example_docs,
      re = literal_re\<rparr>"

definition linked_task :: "string \<Rightarrow> string \<Rightarrow> task_json" where
  "linked_task name url =
     no_members\<lparr>j_title := Some ''A task'', j_links := Some [\<lparr>link_name = name, link_url = url\<rparr>]\<rparr>"

section \<open>The text wrapper: properties\<close>

lemma split_acc_words:
  "list_all (\<lambda>c. \<not> is_space c) a \<Longrightarrow> list_all is_word (split_acc a s)"
  by (induction a s rule: split_acc.induct) (auto simp: is_word_def)

lemma split_words: "list_all is_word (split s)"
  by (simp add: split_def split_acc_words)

lemma split_acc_nospace:
  "list_all (\<lambda>c. \<not> is_space c) w \<Longrightarrow> split_acc a (w @ s) = split_acc (a @ w) s"
  by (induction w arbitrary: a) auto

lemma is_space_blank: "is_space CHR '' ''"
  by (simp add: is_space_def)

lemma split_join: "list_all is_word ws \<Longrightarrow> split (join '' '' ws) = ws"
proof (induction "'' ''" ws rule: join.induct)
  case 1
  then show ?case by (simp add: split_def)
next
  case (2 w)
  then have "split_acc [] (w @ []) = split_acc ([] @ w) []"
    by (intro split_acc_nospace) (simp add: is_word_def)
  with 2 show ?case by (simp add: split_def is_word_def)
next
  case (3 w v ws)
  then have w: "is_word w" and rest: "split (join '' '' (v # ws)) = v # ws" by simp_all
  have "split_acc [] (w @ ('' '' @ join '' '' (v # ws))) = split_acc ([] @ w) ('' '' @ join '' '' (v # ws))"
    using w by (intro split_acc_nospace) (simp add: is_word_def)
  then show ?case using w rest by (simp add: split_def is_word_def is_space_blank)
qed

lemma join_snoc: "ws \<noteq> [] \<Longrightarrow> join sep (ws @ [w]) = join sep ws @ sep @ w"
  by (induction sep ws rule: join.induct) auto

lemma wrap_invI:
  assumes "0 \<le> clen" and "lines = map (join '' '') groups" and "concat groups @ cur = ws"
    and "\<forall>g \<in> set groups. g \<noteq> [] \<and> (int (length (join '' '' g)) \<le> width \<or> length g = 1)"
    and "cur \<noteq> [] \<longrightarrow> int (length (join '' '' cur)) \<le> clen \<and> (clen \<le> width \<or> length cur = 1)"
  shows "wrap_inv width ws (lines, cur, clen)"
  unfolding wrap_inv_def using assms by blast

lemma wrap_inv_init: "wrap_inv width [] ([], [], 0)"
  by (rule wrap_invI[where groups = "[]"]) simp_all

lemma wrap_inv_step:
  assumes "wrap_inv width ws st"
  shows "wrap_inv width (ws @ [w]) (wrap_step width st w)"
proof -
  obtain lines cur clen where st: "st = (lines, cur, clen)" by (cases st)
  from assms st obtain groups where
    clen: "0 \<le> clen" and
    lines: "lines = map (join '' '') groups" and
    ws: "concat groups @ cur = ws" and
    grp: "\<forall>g \<in> set groups. g \<noteq> [] \<and> (int (length (join '' '' g)) \<le> width \<or> length g = 1)" and
    cur: "cur \<noteq> [] \<longrightarrow> int (length (join '' '' cur)) \<le> clen \<and> (clen \<le> width \<or> length cur = 1)"
    unfolding wrap_inv_def by blast
  show ?thesis
  proof (cases "clen + int (length w) + 1 \<le> width")
    case True
    have len: "int (length (join '' '' (cur @ [w]))) \<le> clen + int (length w) + 1"
    proof (cases "cur = []")
      case True
      then show ?thesis using clen by simp
    next
      case False
      then show ?thesis using cur by (simp add: join_snoc)
    qed
    have step: "wrap_step width st w = (lines, cur @ [w], clen + int (length w) + 1)"
      using True by (simp add: wrap_step_def st)
    show ?thesis unfolding step
    proof (rule wrap_invI[where groups = groups])
      show "0 \<le> clen + int (length w) + 1" using clen by simp
      show "lines = map (join '' '') groups" by (rule lines)
      show "concat groups @ cur @ [w] = ws @ [w]" using ws by simp
      show "\<forall>g \<in> set groups. g \<noteq> [] \<and> (int (length (join '' '' g)) \<le> width \<or> length g = 1)"
        by (rule grp)
      show "cur @ [w] \<noteq> [] \<longrightarrow> int (length (join '' '' (cur @ [w]))) \<le> clen + int (length w) + 1 \<and>
          (clen + int (length w) + 1 \<le> width \<or> length (cur @ [w]) = 1)"
        using len True by simp
    qed
  next
    case False
    show ?thesis
    proof (cases "cur = []")
      case True
      have step: "wrap_step width st w = (lines, [w], int (length w))"
        using False True by (simp add: wrap_step_def st)
      show ?thesis unfolding step
      proof (rule wrap_invI[where groups = groups])
        show "concat groups @ [w] = ws @ [w]" using ws True by simp
      qed (use lines grp in simp_all)
    next
      case nonempty: False
      have step: "wrap_step width st w = (lines @ [join '' '' cur], [w], int (length w))"
        using False nonempty by (simp add: wrap_step_def st)
      show ?thesis unfolding step
      proof (rule wrap_invI[where groups = "groups @ [cur]"])
        show "concat (groups @ [cur]) @ [w] = ws @ [w]" using ws by simp
        show "\<forall>g \<in> set (groups @ [cur]). g \<noteq> [] \<and> (int (length (join '' '' g)) \<le> width \<or> length g = 1)"
          using grp cur nonempty by auto
      qed (use lines in simp_all)
    qed
  qed
qed

lemma wrap_inv_foldl: "wrap_inv width ws (foldl (wrap_step width) ([], [], 0) ws)"
proof (induction ws rule: rev_induct)
  case Nil
  then show ?case by (simp add: wrap_inv_init)
next
  case (snoc w ws)
  then show ?case by (simp add: wrap_inv_step)
qed

lemma wrap_finish_groups:
  assumes "wrap_inv width ws st"
  shows "\<exists>groups. wrap_finish st = (if groups = [] then [''''] else map (join '' '') groups) \<and>
           concat groups = ws \<and>
           (\<forall>g \<in> set groups. g \<noteq> [] \<and> (int (length (join '' '' g)) \<le> width \<or> length g = 1))"
proof -
  obtain lines cur clen where st: "st = (lines, cur, clen)" by (cases st)
  from assms st obtain groups where
    lines: "lines = map (join '' '') groups" and
    ws: "concat groups @ cur = ws" and
    grp: "\<forall>g \<in> set groups. g \<noteq> [] \<and> (int (length (join '' '' g)) \<le> width \<or> length g = 1)" and
    cur: "cur \<noteq> [] \<longrightarrow> int (length (join '' '' cur)) \<le> clen \<and> (clen \<le> width \<or> length cur = 1)"
    unfolding wrap_inv_def by blast
  show ?thesis
  proof (cases "cur = []")
    case True
    then show ?thesis using st lines ws grp
      by (intro exI[of _ groups]) (simp add: wrap_finish_def)
  next
    case False
    then show ?thesis using st lines ws grp cur
      by (intro exI[of _ "groups @ [cur]"]) (auto simp: wrap_finish_def)
  qed
qed

lemma wrap_text_groups:
  "\<exists>groups. wrap_text text width = (if groups = [] then [''''] else map (join '' '') groups) \<and>
     concat groups = split text \<and>
     (\<forall>g \<in> set groups. g \<noteq> [] \<and> (int (length (join '' '' g)) \<le> width \<or> length g = 1))"
  unfolding wrap_text_def by (rule wrap_finish_groups) (rule wrap_inv_foldl)

lemma length_join_ge: "w \<in> set ws \<Longrightarrow> length w \<le> length (join sep ws)"
  by (induction sep ws rule: join.induct) auto

lemma format_text_wrap_text: "format_text text width = wrap_text text width"
  by (simp add: format_text_def wrap_text_def)

text \<open>
  C5. For a positive width the wrapper returns a non-empty list of lines; every line is the
  words it holds joined by single blanks; the words of the lines, read in order, are the
  words of the input (none lost, reordered or cut); a line is no longer than the width
  unless it is one single word; and a word longer than the width is a line of the output.
  \<open>format_text\<close> is the same function.
\<close>

theorem wrap_text_lines:
  assumes "0 < width"
  shows "wrap_text text width \<noteq> [] \<and>
         format_text text width = wrap_text text width \<and>
         concat (map split (wrap_text text width)) = split text \<and>
         (\<forall>l \<in> set (wrap_text text width).
            l = join '' '' (split l) \<and> (int (length l) \<le> width \<or> split l = [l])) \<and>
         (\<forall>w \<in> set (split text). width < int (length w) \<longrightarrow> w \<in> set (wrap_text text width))"
proof -
  obtain groups where
    res: "wrap_text text width = (if groups = [] then [''''] else map (join '' '') groups)" and
    cc: "concat groups = split text" and
    grp: "\<forall>g \<in> set groups. g \<noteq> [] \<and> (int (length (join '' '' g)) \<le> width \<or> length g = 1)"
    using wrap_text_groups by blast
  have "list_all is_word (concat groups)" using cc split_words by simp
  then have words: "\<forall>g \<in> set groups. list_all is_word g"
    by (auto simp: list_all_iff)
  then have rejoin: "\<forall>g \<in> set groups. split (join '' '' g) = g"
    by (simp add: split_join)
  have single: "split (join '' '' g) = [join '' '' g]" if "g \<in> set groups" "length g = 1" for g
  proof -
    from that(2) obtain w where "g = [w]" by (cases g) auto
    with rejoin that(1) show ?thesis by fastforce
  qed
  show ?thesis
  proof (cases "groups = []")
    case True
    then have "split text = []" using cc by simp
    then show ?thesis using True res assms
      by (simp add: format_text_wrap_text) (simp add: split_def)
  next
    case False
    have 1: "wrap_text text width \<noteq> []" using res False by simp
    have "map split (map (join '' '') groups) = groups"
      using rejoin by (simp add: map_idI)
    then have 2: "concat (map split (wrap_text text width)) = split text"
      using res False cc by simp
    have 3: "l = join '' '' (split l) \<and> (int (length l) \<le> width \<or> split l = [l])"
      if "l \<in> set (wrap_text text width)" for l
    proof -
      from that res False obtain g where g: "g \<in> set groups" "l = join '' '' g" by auto
      then show ?thesis using rejoin grp single by fastforce
    qed
    have 4: "w \<in> set (wrap_text text width)"
      if "w \<in> set (split text)" "width < int (length w)" for w
    proof -
      from that(1) cc obtain g where g: "g \<in> set groups" "w \<in> set g"
        by (metis set_concat UN_E)
      then have "length w \<le> length (join '' '' g)" by (simp add: length_join_ge)
      with that(2) g(1) grp have "length g = 1" by fastforce
      with g(2) have "g = [w]" by (cases g) auto
      with g(1) have "join '' '' g = w" "join '' '' g \<in> set (map (join '' '') groups)"
        by (simp_all add: image_iff) force
      then show ?thesis using res False by simp
    qed
    show ?thesis using 1 2 3 4 by (simp add: format_text_wrap_text)
  qed
qed

theorem wrap_text_lines_witness:
  "(0::int) < 4 \<and> wrap_text ''abcdefgh ij  k lm'' 4 \<noteq> [] \<and>
   format_text ''abcdefgh ij  k lm'' 4 = wrap_text ''abcdefgh ij  k lm'' 4 \<and>
   concat (map split (wrap_text ''abcdefgh ij  k lm'' 4)) = split ''abcdefgh ij  k lm'' \<and>
   ''abcdefgh'' \<in> set (wrap_text ''abcdefgh ij  k lm'' 4)"
proof -
  have s: "''abcdefgh'' \<in> set (split ''abcdefgh ij  k lm'')"
    by (simp add: split_def is_space_def)
  have l: "(4::int) < int (length ''abcdefgh'')" by simp
  have p: "(0::int) < 4" by simp
  show ?thesis using wrap_text_lines[OF p, of "''abcdefgh ij  k lm''"] s l p by blast
qed

lemma wrap_text_example:
  "wrap_text ''abcdefgh ij  k lm'' 4 = [''abcdefgh'', ''ij k'', ''lm'']"
  by (simp add: wrap_text_def wrap_finish_def wrap_step_def split_def is_space_def)

text \<open>
  C6. Wrapping is not idempotent. At width 4 the text \<open>abc d ef\<close> wraps to the lines
  \<open>abc\<close> and \<open>d ef\<close>; the line \<open>d ef\<close>, wrapped again at width 4, becomes the two lines
  \<open>d\<close> and \<open>ef\<close>. A line opened by the overflow branch counts its first word as
  \<open>len(word)\<close>, a line opened on the empty initial state counts it as \<open>len(word) + 1\<close>, so
  a later line may fill the whole width and the first line of a text may not.
\<close>

theorem wrap_text_rewrap_differs:
  "wrap_text ''abc d ef'' 4 = [''abc'', ''d ef''] \<and>
   wrap_text ''d ef'' 4 = [''d'', ''ef''] \<and>
   concat (map (\<lambda>l. wrap_text l 4) (wrap_text ''abc d ef'' 4)) \<noteq> wrap_text ''abc d ef'' 4"
  by (simp add: wrap_text_def wrap_finish_def wrap_step_def split_def is_space_def)

section \<open>Panel mode: filter and sort\<close>

lemma sort_key_order:
  "((a, m, i) \<le> ((b, n, j) :: nat \<times> string \<times> string)) =
     (a < b \<or> a = b \<and> (m < n \<or> m = n \<and> i \<le> j))"
  by (auto simp: less_eq_prod_def)

lemma filter_sort_eq:
  "filter_sort obj fs fp fm refs =
     sort_key (\<lambda>r. sort_key_of (obj r))
       (filter (\<lambda>r. (truthy fs \<longrightarrow> Some (status (obj r)) = fs) \<and>
                     (truthy fp \<longrightarrow> Some (priority (obj r)) = fp) \<and>
                     (truthy fm \<longrightarrow> Some (milestone (obj r)) = fm)) refs)"
  by (cases "truthy fs"; cases "truthy fp"; cases "truthy fm")
     (simp_all add: filter_sort_def Let_def)

lemma task_at_upt: "map (task_at s) [0..<length (tasks s)] = map snd (tasks s)"
  by (rule nth_equalityI) (simp_all add: task_at_def)

lemma priority_order_rank:
  "priority_order ''critical'' = 0 \<and> priority_order ''high'' = 1 \<and>
   priority_order ''medium'' = 2 \<and> priority_order ''low'' = 3"
  by (simp add: priority_order_def)

lemma priority_order_unknown:
  "p \<notin> {''critical'', ''high'', ''medium'', ''low''} \<Longrightarrow> priority_order p = 4"
  by (simp add: priority_order_def)

text \<open>
  C2 (amended). A filter is set when it holds a non-empty string; \<open>None\<close> and the empty
  string both leave it unset. For every collection and every state of the three filters,
  the tasks returned are exactly the tasks of the collection that satisfy every set filter
  (as a multiset: each task object once), ordered ascending by (priority rank, milestone,
  id), where the ranks are critical 0, high 1, medium 2, low 3 and every other priority 4.
  The result is a function of the state.
\<close>

theorem get_filtered_tasks_filtered_sorted:
  "mset (map (task_at s) (get_filtered_tasks s)) =
     mset (filter (\<lambda>t. (truthy (filter_status s) \<longrightarrow> Some (status t) = filter_status s) \<and>
                        (truthy (filter_priority s) \<longrightarrow> Some (priority t) = filter_priority s) \<and>
                        (truthy (filter_milestone s) \<longrightarrow> Some (milestone t) = filter_milestone s))
             (map snd (tasks s))) \<and>
   distinct (get_filtered_tasks s) \<and>
   sorted (map (\<lambda>t. (priority_order (priority t), milestone t, task_id t))
             (map (task_at s) (get_filtered_tasks s))) \<and>
   priority_order ''critical'' < priority_order ''high'' \<and>
   priority_order ''high'' < priority_order ''medium'' \<and>
   priority_order ''medium'' < priority_order ''low'' \<and>
   (\<forall>p. p \<notin> {''critical'', ''high'', ''medium'', ''low''} \<longrightarrow>
        priority_order ''low'' < priority_order p)"
proof -
  let ?P = "\<lambda>t. (truthy (filter_status s) \<longrightarrow> Some (status t) = filter_status s) \<and>
                 (truthy (filter_priority s) \<longrightarrow> Some (priority t) = filter_priority s) \<and>
                 (truthy (filter_milestone s) \<longrightarrow> Some (milestone t) = filter_milestone s)"
  let ?refs = "filter (\<lambda>r. ?P (task_at s r)) [0..<length (tasks s)]"
  have g: "get_filtered_tasks s = sort_key (\<lambda>r. sort_key_of (task_at s r)) ?refs"
    by (simp add: get_filtered_tasks_def filter_sort_eq)
  have "mset (map (task_at s) (get_filtered_tasks s)) = mset (map (task_at s) ?refs)"
    unfolding g by simp
  also have "map (task_at s) ?refs = filter ?P (map (task_at s) [0..<length (tasks s)])"
    by (simp add: filter_map comp_def)
  finally have 1: "mset (map (task_at s) (get_filtered_tasks s)) =
      mset (filter ?P (map snd (tasks s)))"
    by (simp add: task_at_upt)
  have 2: "distinct (get_filtered_tasks s)"
    unfolding g by simp
  have "sorted (map (\<lambda>r. sort_key_of (task_at s r)) (get_filtered_tasks s))"
    unfolding g by (rule sorted_sort_key)
  then have 3: "sorted (map (\<lambda>t. (priority_order (priority t), milestone t, task_id t))
             (map (task_at s) (get_filtered_tasks s)))"
    by (simp add: comp_def sort_key_of_def)
  have 4: "\<forall>p. p \<notin> {''critical'', ''high'', ''medium'', ''low''} \<longrightarrow>
        priority_order ''low'' < priority_order p"
    using priority_order_unknown priority_order_rank by simp
  show ?thesis using 1 2 3 4 priority_order_rank by simp
qed

lemmas example_defs =
  example_tasks_def example_task_def initial_def get_filtered_tasks_def filter_sort_def
  truthy_def task_at_def sort_key_of_def priority_order_def

theorem get_filtered_tasks_filtered_sorted_witness:
  "truthy (filter_milestone ((initial example_tasks Absent)\<lparr>filter_milestone := Some ''M1''\<rparr>)) \<and>
   mset (map (task_at ((initial example_tasks Absent)\<lparr>filter_milestone := Some ''M1''\<rparr>))
          (get_filtered_tasks ((initial example_tasks Absent)\<lparr>filter_milestone := Some ''M1''\<rparr>))) =
     mset [example_task ''T1'' ''todo'' ''high'' ''M1'', example_task ''T2'' ''done'' ''critical'' ''M1''] \<and>
   sorted (map (\<lambda>t. (priority_order (priority t), milestone t, task_id t))
     (map (task_at ((initial example_tasks Absent)\<lparr>filter_milestone := Some ''M1''\<rparr>))
        (get_filtered_tasks ((initial example_tasks Absent)\<lparr>filter_milestone := Some ''M1''\<rparr>))))"
proof -
  let ?s = "(initial example_tasks Absent)\<lparr>filter_milestone := Some ''M1''\<rparr>"
  have f: "filter (\<lambda>t. (truthy (filter_status ?s) \<longrightarrow> Some (status t) = filter_status ?s) \<and>
                        (truthy (filter_priority ?s) \<longrightarrow> Some (priority t) = filter_priority ?s) \<and>
                        (truthy (filter_milestone ?s) \<longrightarrow> Some (milestone t) = filter_milestone ?s))
             (map snd (tasks ?s)) =
           [example_task ''T1'' ''todo'' ''high'' ''M1'', example_task ''T2'' ''done'' ''critical'' ''M1'']"
    by (simp add: example_tasks_def example_task_def initial_def truthy_def)
  have t: "truthy (filter_milestone ?s)" by (simp add: truthy_def)
  show ?thesis
    using get_filtered_tasks_filtered_sorted[of ?s] t unfolding f by blast
qed

lemma get_filtered_tasks_scenario:
  "map (\<lambda>r. fst (example_tasks ! r))
     (get_filtered_tasks ((initial example_tasks Absent)\<lparr>filter_milestone := Some ''M1''\<rparr>)) =
   [''T2'', ''T1'']"
  by (simp add: example_defs upt_rec)

theorem get_filtered_tasks_empty_filter_counterexample:
  "filter_milestone ((initial example_tasks Absent)\<lparr>filter_milestone := Some ''''\<rparr>) = Some '''' \<and>
   get_filtered_tasks ((initial example_tasks Absent)\<lparr>filter_milestone := Some ''''\<rparr>) = [1, 0, 2] \<and>
   milestone (task_at ((initial example_tasks Absent)\<lparr>filter_milestone := Some ''''\<rparr>) 1) = ''M1'' \<and>
   \<not> list_all (\<lambda>t. milestone t = '''')
       (map (task_at ((initial example_tasks Absent)\<lparr>filter_milestone := Some ''''\<rparr>))
          (get_filtered_tasks ((initial example_tasks Absent)\<lparr>filter_milestone := Some ''''\<rparr>)))"
  by (simp add: example_defs upt_rec)

section \<open>Panel mode: the space key\<close>

lemma insort_key_cong:
  "f x = g x \<Longrightarrow> (\<And>y. y \<in> set ys \<Longrightarrow> f y = g y) \<Longrightarrow> insort_key f x ys = insort_key g x ys"
  by (induction ys) auto

lemma sort_key_cong:
  "(\<And>x. x \<in> set xs \<Longrightarrow> f x = g x) \<Longrightarrow> sort_key f xs = sort_key g xs"
proof (induction xs)
  case Nil
  then show ?case by simp
next
  case (Cons a xs)
  then have "sort_key f xs = sort_key g xs" by simp
  moreover have "insort_key f a (sort_key g xs) = insort_key g a (sort_key g xs)"
    using Cons.prems by (intro insort_key_cong) simp_all
  ultimately show ?case by simp
qed

lemma filter_sort_cong:
  assumes "\<And>r. r \<in> set refs \<Longrightarrow>
             priority (obj r) = priority (obj' r) \<and> milestone (obj r) = milestone (obj' r) \<and>
             task_id (obj r) = task_id (obj' r) \<and>
             (truthy fs \<longrightarrow> status (obj r) = status (obj' r))"
  shows "filter_sort obj fs fp fm refs = filter_sort obj' fs fp fm refs"
proof -
  let ?P = "\<lambda>ob r. (truthy fs \<longrightarrow> Some (status (ob r)) = fs) \<and>
                     (truthy fp \<longrightarrow> Some (priority (ob r)) = fp) \<and>
                     (truthy fm \<longrightarrow> Some (milestone (ob r)) = fm)"
  have 1: "filter (?P obj) refs = filter (?P obj') refs"
    using assms by (intro filter_cong) auto
  have 2: "sort_key (\<lambda>r. sort_key_of (obj r)) (filter (?P obj') refs) =
           sort_key (\<lambda>r. sort_key_of (obj' r)) (filter (?P obj') refs)"
    using assms by (intro sort_key_cong) (simp add: sort_key_of_def)
  show ?thesis unfolding filter_sort_eq 1 2 ..
qed

lemma get_filtered_tasks_bound:
  "r \<in> set (get_filtered_tasks s) \<Longrightarrow> r < length (tasks s)"
  by (simp add: get_filtered_tasks_def filter_sort_eq)

lemma toggle_status_selected:
  assumes "selected_index s < length (get_filtered_tasks s)" and "writable e"
  shows "toggle_status e s = Continue (toggled e s)"
proof -
  from assms(1) have "get_filtered_tasks s \<noteq> []" by auto
  with assms show ?thesis
    by (simp add: toggle_status_def toggled_def save_tasks_def Let_def)
qed

lemma run_pass_space: "key e = 32 \<Longrightarrow> run_pass e s = toggle_status e s"
  by (simp add: run_pass_def KEY_UP_def KEY_DOWN_def Let_def)

lemma toggled_fields:
  "selected_index (toggled e s) = selected_index s"
  "filter_status (toggled e s) = filter_status s"
  "filter_priority (toggled e s) = filter_priority s"
  "filter_milestone (toggled e s) = filter_milestone s"
  "length (tasks (toggled e s)) = length (tasks s)"
  "disk (toggled e s) = Document (map (\<lambda>(tid, t). (tid, to_dict t)) (tasks (toggled e s)))"
  by (simp_all add: toggled_def Let_def)

lemma toggled_task_at:
  assumes "selected_index s < length (get_filtered_tasks s)"
  shows "task_at (toggled e s) r' =
     (if r' = get_filtered_tasks s ! selected_index s
      then (task_at s r')\<lparr>status := next_status (status (task_at s r')), updated := now e\<rparr>
      else task_at s r')"
proof -
  have "get_filtered_tasks s ! selected_index s < length (tasks s)"
    using assms by (intro get_filtered_tasks_bound) simp
  then show ?thesis
    by (simp add: toggled_def Let_def task_at_def nth_list_update)
qed

lemma toggled_get_filtered_tasks:
  assumes "selected_index s < length (get_filtered_tasks s)" and "\<not> truthy (filter_status s)"
  shows "get_filtered_tasks (toggled e s) = get_filtered_tasks s"
  unfolding get_filtered_tasks_def toggled_fields
  using assms by (intro filter_sort_cong) (simp add: toggled_task_at)

lemma reachable_filters:
  "reachable s \<Longrightarrow> filter_status s = None \<and> filter_priority s = None \<and> filter_milestone s = None"
proof (induction rule: reachable.induct)
  case (start ts f)
  then show ?case by (simp add: initial_def)
next
  case (pass s e s')
  then show ?case
    by (auto simp: run_pass_def toggle_status_def save_tasks_def Let_def
             split: if_splits sum.splits)
qed

lemma next_status_simps:
  "next_status ''todo'' = ''in_progress''"
  "next_status ''in_progress'' = ''done''"
  "next_status ''done'' = ''todo''"
  by (simp_all add: next_status_def status_cycle_def)

lemma next_status_other:
  "st \<notin> {''todo'', ''in_progress'', ''done''} \<Longrightarrow> next_status st = ''in_progress''"
  by (simp add: next_status_def status_cycle_def)

lemma press_space:
  assumes "selected_index s < length (get_filtered_tasks s)" and "key e = 32" and "writable e"
  shows "run_pass e s = Continue (toggled e s)"
  using assms by (simp add: run_pass_space toggle_status_selected)

lemma reachable_toggled:
  assumes "reachable s" and "selected_index s < length (get_filtered_tasks s)"
    and "key e = 32" and "writable e"
  shows "reachable (toggled e s)"
  using assms(1) press_space[OF assms(2-4)] by (rule reachable.pass)

lemma file_holds_to_dict:
  "file_holds (Document (map (\<lambda>(tid, t). (tid, to_dict t)) ts)) ts"
  by (induction ts)
     (auto simp: file_holds_def holds_task_def to_dict_def Task_to_dict_def)

lemma saved_members_to_dict:
  assumes "i < length ts"
  shows "saved_members (Document (map (\<lambda>(tid, t). (tid, to_dict t)) ts)) i =
           Some (fst (ts ! i), Some (status (snd (ts ! i))), Some (updated (snd (ts ! i))))"
  using assms
  by (cases "ts ! i")
     (simp add: saved_members_def file_entry_def to_dict_def Task_to_dict_def)

lemma toggled_keys: "fst (tasks (toggled e s) ! i) = fst (tasks s ! i)"
proof (cases "get_filtered_tasks s ! selected_index s = i")
  case False
  then show ?thesis by (simp add: toggled_def Let_def)
next
  case same: True
  show ?thesis
  proof (cases "i < length (tasks s)")
    case True
    with same show ?thesis by (simp add: toggled_def Let_def)
  next
    case False
    with same show ?thesis by (simp add: toggled_def Let_def list_update_beyond)
  qed
qed

lemma toggled_saved:
  assumes "selected_index s < length (get_filtered_tasks s)"
    and "r = get_filtered_tasks s ! selected_index s"
  shows "file_holds (disk (toggled e s)) (tasks (toggled e s))"
    and "saved_members (disk (toggled e s)) r =
           Some (fst (tasks s ! r), Some (next_status (status (task_at s r))), Some (now e))"
proof -
  have r: "r < length (tasks (toggled e s))"
    using assms by (simp add: toggled_fields get_filtered_tasks_bound)
  show "file_holds (disk (toggled e s)) (tasks (toggled e s))"
    unfolding toggled_fields(6) by (rule file_holds_to_dict)
  have "task_at (toggled e s) r =
      (task_at s r)\<lparr>status := next_status (status (task_at s r)), updated := now e\<rparr>"
    using assms(2) by (simp add: toggled_task_at[OF assms(1)])
  then have t: "status (snd (tasks (toggled e s) ! r)) = next_status (status (task_at s r))"
      "updated (snd (tasks (toggled e s) ! r)) = now e"
    by (simp_all add: task_at_def)
  show "saved_members (disk (toggled e s)) r =
           Some (fst (tasks s ! r), Some (next_status (status (task_at s r))), Some (now e))"
    unfolding toggled_fields(6) saved_members_to_dict[OF r] t toggled_keys ..
qed

text \<open>
  C3. In a state the key loop can reach, with a task selected whose status is \<open>todo\<close> and
  a writable file: a press of the space key sets that task's status to \<open>in_progress\<close>,
  the next press sets it to \<open>done\<close> and the third back to \<open>todo\<close>. After each press the
  task's \<open>updated\<close> is the clock of that press, and in the state in which the next key is
  read the file holds the whole collection: every task under its id with all its fields,
  and for the selected task the new status and the new \<open>updated\<close>.
\<close>

theorem space_cycles_status:
  assumes "reachable s"
    and "selected_index s < length (get_filtered_tasks s)"
    and "r = get_filtered_tasks s ! selected_index s"
    and "status (task_at s r) = ''todo''"
    and "key e1 = 32 \<and> key e2 = 32 \<and> key e3 = 32"
    and "writable e1 \<and> writable e2 \<and> writable e3"
  shows "\<exists>s1 s2 s3.
           run_pass e1 s = Continue s1 \<and>
           status (task_at s1 r) = ''in_progress'' \<and> updated (task_at s1 r) = now e1 \<and>
           disk s1 = Document (map (\<lambda>(tid, t). (tid, to_dict t)) (tasks s1)) \<and>
           file_holds (disk s1) (tasks s1) \<and>
           saved_members (disk s1) r =
             Some (fst (tasks s ! r), Some ''in_progress'', Some (now e1)) \<and>
           run_pass e2 s1 = Continue s2 \<and>
           status (task_at s2 r) = ''done'' \<and> updated (task_at s2 r) = now e2 \<and>
           disk s2 = Document (map (\<lambda>(tid, t). (tid, to_dict t)) (tasks s2)) \<and>
           file_holds (disk s2) (tasks s2) \<and>
           saved_members (disk s2) r = Some (fst (tasks s ! r), Some ''done'', Some (now e2)) \<and>
           run_pass e3 s2 = Continue s3 \<and>
           status (task_at s3 r) = ''todo'' \<and> updated (task_at s3 r) = now e3 \<and>
           disk s3 = Document (map (\<lambda>(tid, t). (tid, to_dict t)) (tasks s3)) \<and>
           file_holds (disk s3) (tasks s3) \<and>
           saved_members (disk s3) r = Some (fst (tasks s ! r), Some ''todo'', Some (now e3))"
proof -
  let ?s1 = "toggled e1 s"
  let ?s2 = "toggled e2 ?s1"
  let ?s3 = "toggled e3 ?s2"
  have sel0: "selected_index s < length (get_filtered_tasks s)" by (rule assms(2))
  have nf0: "\<not> truthy (filter_status s)"
    using reachable_filters[OF assms(1)] by (simp add: truthy_def)
  have p1: "run_pass e1 s = Continue ?s1"
    using sel0 assms(5,6) by (simp add: press_space)
  have g1: "get_filtered_tasks ?s1 = get_filtered_tasks s"
    using sel0 nf0 by (rule toggled_get_filtered_tasks)
  have sel1: "selected_index ?s1 < length (get_filtered_tasks ?s1)"
    using sel0 by (simp add: g1 toggled_fields)
  have t1: "task_at ?s1 r = (task_at s r)\<lparr>status := ''in_progress'', updated := now e1\<rparr>"
    using assms(3,4) by (simp add: toggled_task_at[OF sel0] next_status_simps)
  have f1: "saved_members (disk ?s1) r =
      Some (fst (tasks s ! r), Some ''in_progress'', Some (now e1))"
    using toggled_saved(2)[OF sel0 assms(3), of e1] assms(4) by (simp add: next_status_simps)
  have nf1: "\<not> truthy (filter_status ?s1)"
    using nf0 by (simp add: toggled_fields)
  have p2: "run_pass e2 ?s1 = Continue ?s2"
    using sel1 assms(5,6) by (simp add: press_space)
  have r1: "r = get_filtered_tasks ?s1 ! selected_index ?s1"
    using assms(3) by (simp add: g1 toggled_fields)
  have g2: "get_filtered_tasks ?s2 = get_filtered_tasks ?s1"
    using sel1 nf1 by (rule toggled_get_filtered_tasks)
  have sel2: "selected_index ?s2 < length (get_filtered_tasks ?s2)"
    using sel1 by (simp add: g2 toggled_fields)
  have t2: "task_at ?s2 r = (task_at ?s1 r)\<lparr>status := ''done'', updated := now e2\<rparr>"
    using r1 t1 by (simp add: toggled_task_at[OF sel1] next_status_simps)
  have f2: "saved_members (disk ?s2) r = Some (fst (tasks s ! r), Some ''done'', Some (now e2))"
    using toggled_saved(2)[OF sel1 r1, of e2] t1
    by (simp add: next_status_simps toggled_keys)
  have p3: "run_pass e3 ?s2 = Continue ?s3"
    using sel2 assms(5,6) by (simp add: press_space)
  have r2: "r = get_filtered_tasks ?s2 ! selected_index ?s2"
    using r1 by (simp add: g2 toggled_fields)
  have t3: "task_at ?s3 r = (task_at ?s2 r)\<lparr>status := ''todo'', updated := now e3\<rparr>"
    using r2 t2 by (simp add: toggled_task_at[OF sel2] next_status_simps)
  have f3: "saved_members (disk ?s3) r = Some (fst (tasks s ! r), Some ''todo'', Some (now e3))"
    using toggled_saved(2)[OF sel2 r2, of e3] t2
    by (simp add: next_status_simps toggled_keys)
  have h1: "file_holds (disk ?s1) (tasks ?s1)" by (rule toggled_saved(1)[OF sel0 assms(3)])
  have h2: "file_holds (disk ?s2) (tasks ?s2)" by (rule toggled_saved(1)[OF sel1 r1])
  have h3: "file_holds (disk ?s3) (tasks ?s3)" by (rule toggled_saved(1)[OF sel2 r2])
  have c1: "run_pass e1 s = Continue ?s1 \<and>
      status (task_at ?s1 r) = ''in_progress'' \<and> updated (task_at ?s1 r) = now e1 \<and>
      disk ?s1 = Document (map (\<lambda>(tid, t). (tid, to_dict t)) (tasks ?s1)) \<and>
      file_holds (disk ?s1) (tasks ?s1) \<and>
      saved_members (disk ?s1) r = Some (fst (tasks s ! r), Some ''in_progress'', Some (now e1))"
    using p1 h1 f1 toggled_fields(6)[of e1 s] by (simp add: t1)
  have c2: "run_pass e2 ?s1 = Continue ?s2 \<and>
      status (task_at ?s2 r) = ''done'' \<and> updated (task_at ?s2 r) = now e2 \<and>
      disk ?s2 = Document (map (\<lambda>(tid, t). (tid, to_dict t)) (tasks ?s2)) \<and>
      file_holds (disk ?s2) (tasks ?s2) \<and>
      saved_members (disk ?s2) r = Some (fst (tasks s ! r), Some ''done'', Some (now e2))"
    using p2 h2 f2 toggled_fields(6)[of e2 ?s1] by (simp add: t2)
  have c3: "run_pass e3 ?s2 = Continue ?s3 \<and>
      status (task_at ?s3 r) = ''todo'' \<and> updated (task_at ?s3 r) = now e3 \<and>
      disk ?s3 = Document (map (\<lambda>(tid, t). (tid, to_dict t)) (tasks ?s3)) \<and>
      file_holds (disk ?s3) (tasks ?s3) \<and>
      saved_members (disk ?s3) r = Some (fst (tasks s ! r), Some ''todo'', Some (now e3))"
    using p3 h3 f3 toggled_fields(6)[of e3 ?s2] by (simp add: t3)
  show ?thesis
    using c1 c2 c3 by blast
qed

text \<open>
  C10. With a task selected whose status is none of \<open>todo\<close>, \<open>in_progress\<close> and \<open>done\<close>
  (\<open>blocked\<close>, or any other string) and a writable file, a press of the space key sets the
  status to \<open>in_progress\<close>, sets \<open>updated\<close> to the clock of the press and writes the whole
  collection to the file: every task under its id with all its fields, and for the selected
  task the status \<open>in_progress\<close> and the new \<open>updated\<close>.
\<close>

theorem space_on_other_status:
  assumes "selected_index s < length (get_filtered_tasks s)"
    and "r = get_filtered_tasks s ! selected_index s"
    and "status (task_at s r) \<notin> {''todo'', ''in_progress'', ''done''}"
    and "key e = 32" and "writable e"
  shows "\<exists>s1. run_pass e s = Continue s1 \<and>
           status (task_at s1 r) = ''in_progress'' \<and> updated (task_at s1 r) = now e \<and>
           disk s1 = Document (map (\<lambda>(tid, t). (tid, to_dict t)) (tasks s1)) \<and>
           file_holds (disk s1) (tasks s1) \<and>
           saved_members (disk s1) r = Some (fst (tasks s ! r), Some ''in_progress'', Some (now e))"
proof -
  have p: "run_pass e s = Continue (toggled e s)"
    using assms(1,4,5) by (rule press_space)
  have t: "task_at (toggled e s) r = (task_at s r)\<lparr>status := ''in_progress'', updated := now e\<rparr>"
    using assms(2,3) by (simp add: toggled_task_at[OF assms(1)] next_status_other)
  have f: "saved_members (disk (toggled e s)) r =
      Some (fst (tasks s ! r), Some ''in_progress'', Some (now e))"
    using toggled_saved(2)[OF assms(1,2), of e] assms(3) by (simp add: next_status_other)
  have h: "file_holds (disk (toggled e s)) (tasks (toggled e s))"
    by (rule toggled_saved(1)[OF assms(1,2)])
  have "run_pass e s = Continue (toggled e s) \<and>
      status (task_at (toggled e s) r) = ''in_progress'' \<and>
      updated (task_at (toggled e s) r) = now e \<and>
      disk (toggled e s) = Document (map (\<lambda>(tid, t). (tid, to_dict t)) (tasks (toggled e s))) \<and>
      file_holds (disk (toggled e s)) (tasks (toggled e s)) \<and>
      saved_members (disk (toggled e s)) r =
        Some (fst (tasks s ! r), Some ''in_progress'', Some (now e))"
    using p h f toggled_fields(6)[of e s] by (simp add: t)
  then show ?thesis by blast
qed

lemma example_key_down:
  "run_pass \<lparr>height = 24, key = 258, now = ''2025-01-02T00:00:00'', writable = True\<rparr>
     (initial example_tasks Absent) =
   Continue ((initial example_tasks Absent)\<lparr>selected_index := 1\<rparr>)"
  by (simp add: run_pass_def KEY_UP_def KEY_DOWN_def Let_def example_defs upt_rec)

lemma example_filtered:
  "get_filtered_tasks ((initial example_tasks Absent)\<lparr>selected_index := i\<rparr>) = [1, 0, 2]"
  by (simp add: example_defs upt_rec)

theorem space_cycles_status_witness:
  "reachable ((initial example_tasks Absent)\<lparr>selected_index := 1\<rparr>) \<and>
   status (task_at ((initial example_tasks Absent)\<lparr>selected_index := 1\<rparr>) 0) = ''todo'' \<and>
   (\<exists>s1 s2 s3.
      run_pass \<lparr>height = 24, key = 32, now = ''2025-01-02T00:00:01'', writable = True\<rparr>
        ((initial example_tasks Absent)\<lparr>selected_index := 1\<rparr>) = Continue s1 \<and>
      status (task_at s1 0) = ''in_progress'' \<and> updated (task_at s1 0) = ''2025-01-02T00:00:01'' \<and>
      disk s1 = Document (map (\<lambda>(tid, t). (tid, to_dict t)) (tasks s1)) \<and>
      file_holds (disk s1) (tasks s1) \<and>
      saved_members (disk s1) 0 =
        Some (''T1'', Some ''in_progress'', Some ''2025-01-02T00:00:01'') \<and>
      run_pass \<lparr>height = 24, key = 32, now = ''2025-01-02T00:00:02'', writable = True\<rparr> s1 =
        Continue s2 \<and>
      status (task_at s2 0) = ''done'' \<and> updated (task_at s2 0) = ''2025-01-02T00:00:02'' \<and>
      disk s2 = Document (map (\<lambda>(tid, t). (tid, to_dict t)) (tasks s2)) \<and>
      file_holds (disk s2) (tasks s2) \<and>
      saved_members (disk s2) 0 =
        Some (''T1'', Some ''done'', Some ''2025-01-02T00:00:02'') \<and>
      run_pass \<lparr>height = 24, key = 32, now = ''2025-01-02T00:00:03'', writable = True\<rparr> s2 =
        Continue s3 \<and>
      status (task_at s3 0) = ''todo'' \<and> updated (task_at s3 0) = ''2025-01-02T00:00:03'' \<and>
      disk s3 = Document (map (\<lambda>(tid, t). (tid, to_dict t)) (tasks s3)) \<and>
      file_holds (disk s3) (tasks s3) \<and>
      saved_members (disk s3) 0 =
        Some (''T1'', Some ''todo'', Some ''2025-01-02T00:00:03''))"
proof -
  let ?s = "(initial example_tasks Absent)\<lparr>selected_index := 1\<rparr>"
  have reach: "reachable ?s"
    using reachable.start example_key_down by (rule reachable.pass)
  have sel: "selected_index ?s < length (get_filtered_tasks ?s)"
    by (simp add: example_filtered)
  have r: "0 = get_filtered_tasks ?s ! selected_index ?s"
    by (simp add: example_filtered)
  have st: "status (task_at ?s 0) = ''todo''"
    by (simp add: task_at_def initial_def example_tasks_def example_task_def)
  have k: "fst (tasks (initial example_tasks Absent) ! 0) = ''T1''"
    by (simp add: initial_def example_tasks_def)
  show ?thesis
    using reach st
      space_cycles_status[OF reach sel r st,
        of "\<lparr>height = 24, key = 32, now = ''2025-01-02T00:00:01'', writable = True\<rparr>"
           "\<lparr>height = 24, key = 32, now = ''2025-01-02T00:00:02'', writable = True\<rparr>"
           "\<lparr>height = 24, key = 32, now = ''2025-01-02T00:00:03'', writable = True\<rparr>"]
    by (simp add: k)
qed

theorem space_on_other_status_witness:
  "status (task_at ((initial example_tasks Absent)\<lparr>selected_index := 2\<rparr>) 2) = ''blocked'' \<and>
   (\<exists>s1.
      run_pass \<lparr>height = 24, key = 32, now = ''2025-01-02T00:00:01'', writable = True\<rparr>
        ((initial example_tasks Absent)\<lparr>selected_index := 2\<rparr>) = Continue s1 \<and>
      status (task_at s1 2) = ''in_progress'' \<and> updated (task_at s1 2) = ''2025-01-02T00:00:01'' \<and>
      disk s1 = Document (map (\<lambda>(tid, t). (tid, to_dict t)) (tasks s1)) \<and>
      file_holds (disk s1) (tasks s1) \<and>
      saved_members (disk s1) 2 =
        Some (''T3'', Some ''in_progress'', Some ''2025-01-02T00:00:01''))"
proof -
  let ?s = "(initial example_tasks Absent)\<lparr>selected_index := 2\<rparr>"
  have sel: "selected_index ?s < length (get_filtered_tasks ?s)"
    by (simp add: example_filtered)
  have r: "2 = get_filtered_tasks ?s ! selected_index ?s"
    by (simp add: example_filtered)
  have st: "status (task_at ?s 2) = ''blocked''"
    by (simp add: task_at_def initial_def example_tasks_def example_task_def)
  have other: "status (task_at ?s 2) \<notin> {''todo'', ''in_progress'', ''done''}"
    unfolding st by simp
  have k: "fst (tasks (initial example_tasks Absent) ! 2) = ''T3''"
    by (simp add: initial_def example_tasks_def)
  show ?thesis
    using st
      space_on_other_status[OF sel r other,
        of "\<lparr>height = 24, key = 32, now = ''2025-01-02T00:00:01'', writable = True\<rparr>"]
    by (simp add: k)
qed

section \<open>The task store\<close>

text \<open>
  C9. When \<open>tasks.json\<close> does not exist, \<open>load_tasks\<close> returns the empty dict and raises
  nothing, in the panel tool (for any base constructor) and in the report viewer; and
  \<open>save_tasks\<close> on that empty collection, with a writable file, leaves the JSON object
  with no members in the file.
\<close>

theorem load_absent_save_empty:
  "load_tasks Task_init Absent = Inr [] \<and>
   viewer_load_tasks Absent = Inr [] \<and>
   save_tasks True [] Absent = Inr (Document [])"
  by (simp add: load_tasks_def viewer_load_tasks_def save_tasks_def)

section \<open>Report mode: the listing by milestone\<close>

lemma milestone_buckets_order:
  "sorted (map fst (milestone_buckets ts)) \<and>
   list_all (\<lambda>(m, b). sorted (map card_key b)) (milestone_buckets ts)"
  by (simp add: milestone_buckets_def Let_def list_all_iff comp_def split_def)

text \<open>
  C4. The collection with task \<open>A\<close>, whose milestone is the empty string, and task \<open>B\<close>,
  which has no milestone member, is listed in two buckets: one named by the empty string
  (holding \<open>A\<close>) and one named \<open>Unassigned\<close> (holding \<open>B\<close>). The tasks lacking a milestone
  are not in one bucket.
\<close>

theorem list_tasks_by_milestone_two_unassigned_buckets:
  "milestone_buckets [(''A'', no_members\<lparr>j_milestone := Some ''''\<rparr>), (''B'', no_members)] =
     [('''', [(''A'', no_members\<lparr>j_milestone := Some ''''\<rparr>)]),
      (''Unassigned'', [(''B'', no_members)])] \<and>
   out (snd (list_tasks_by_milestone
          (example_viewer [(''A'', no_members\<lparr>j_milestone := Some ''''\<rparr>), (''B'', no_members)])
          True \<lparr>stdin = [], out = []\<rparr>)) =
     [MilestoneHeader '''', SelectionNumber 1,
      Card ''A'' (no_members\<lparr>j_milestone := Some ''''\<rparr>) False,
      MilestoneHeader ''Unassigned'', SelectionNumber 2, Card ''B'' no_members False]"
proof -
  have b: "milestone_buckets [(''A'', no_members\<lparr>j_milestone := Some ''''\<rparr>), (''B'', no_members)] =
     [('''', [(''A'', no_members\<lparr>j_milestone := Some ''''\<rparr>)]),
      (''Unassigned'', [(''B'', no_members)])]"
    by (simp add: milestone_buckets_def group_by_milestone_def milestone_key_def pop_def
          no_members_def Let_def)
  show ?thesis
    by (simp add: list_tasks_by_milestone_def b example_viewer_def print_def Let_def)
qed

section \<open>Report mode: lookup by id\<close>

text \<open>
  C7 (amended). With \<open>--task ID\<close>, \<open>ID\<close> not empty and \<open>--list\<close> not given, report mode
  looks up \<open>ID.upper()\<close> in the loaded collection. When that is the id of a task, it runs
  the detail view of that task: it prints the view, asks for Enter and returns (with
  \<open>EOFError\<close> when the input is at its end, and with the exception of the existence test
  of a linked document when that test raises); when it is not, it prints that the task
  \<open>ID.upper()\<close> was not found and returns. The ids are those whose upper case is a string
  of the model (\<open>upper_fits\<close>).
\<close>

theorem main_task_lookup:
  assumes "viewer_load_tasks f = Inr ts" and "\<not> arg_list a" and "arg_task a = Some tid"
    and "tid \<noteq> []" and "upper_fits tid"
  shows "main root docs rx f a w =
     (case map_of ts (upper tid) of
        None \<Rightarrow> Inr (w\<lparr>out := out w @ [TaskNotFound (upper tid)]\<rparr>)
      | Some t \<Rightarrow>
          (case detail_view \<lparr>viewer_tasks = ts, workspace_root = root, documents = docs,
                             re = rx\<rparr> (upper tid) t of
             Inl e \<Rightarrow> Inl e
           | Inr view \<Rightarrow>
               (case stdin w of
                  [] \<Rightarrow> Inl EOFError
                | l # rest \<Rightarrow>
                    Inr \<lparr>stdin = rest,
                         out = out w @ view @ [Prompt ''Press Enter to continue...'']\<rparr>)))"
  using assms
  by (simp add: main_def truthy_def pop_def show_task_detail_def print_def input_def Let_def
           split: option.splits list.splits sum.splits)

lemma detail_view_no_links:
  "j_links t = None \<Longrightarrow>
     detail_view v tid t =
       Inr ([ClearScreen, Header, DetailsTitle, Card tid t True] @ detail_sections v t [])"
  by (simp add: detail_view_def)

theorem main_task_lookup_witness:
  "upper_fits ''t1'' \<and> upper ''t1'' = ''T1'' \<and>
   main ''/ws/docs'' example_docs literal_re (Document [(''T1'', no_members)])
     \<lparr>arg_list = False, arg_task = Some ''t1'', arg_status = None, arg_priority = None\<rparr>
     \<lparr>stdin = [''''], out = []\<rparr> =
   Inr \<lparr>stdin = [],
        out = [ClearScreen, Header, DetailsTitle, Card ''T1'' no_members True,
               Prompt ''Press Enter to continue...'']\<rparr>"
proof -
  have u: "upper ''t1'' = ''T1''" by (simp add: upper_def upper_char_def)
  have uf: "upper_fits ''t1''" by (simp add: upper_fits_def)
  have l: "viewer_load_tasks (Document [(''T1'', no_members)]) = Inr [(''T1'', no_members)]"
    by (simp add: viewer_load_tasks_def)
  have d: "detail_view \<lparr>viewer_tasks = [(''T1'', no_members)], workspace_root = ''/ws/docs'',
                         documents = example_docs, re = literal_re\<rparr> ''T1'' no_members =
      Inr [ClearScreen, Header, DetailsTitle, Card ''T1'' no_members True]"
    by (simp add: detail_view_no_links no_members_def detail_sections_def)
  show ?thesis
    using main_task_lookup[OF l _ _ _ uf, of
        "\<lparr>arg_list = False, arg_task = Some ''t1'', arg_status = None, arg_priority = None\<rparr>"
        "''/ws/docs''" example_docs literal_re "\<lparr>stdin = [''''], out = []\<rparr>"]
    by (simp add: u uf d)
qed

theorem main_task_lowercase_id_counterexample:
  "viewer_load_tasks (Document [(''t1'', no_members)]) = Inr [(''t1'', no_members)] \<and>
   map_of [(''t1'', no_members)] ''t1'' = Some no_members \<and>
   main ''/ws/docs'' example_docs literal_re (Document [(''t1'', no_members)])
     \<lparr>arg_list = False, arg_task = Some ''t1'', arg_status = None, arg_priority = None\<rparr>
     \<lparr>stdin = [''''], out = []\<rparr> =
   Inr \<lparr>stdin = [''''], out = [TaskNotFound ''T1'']\<rparr>"
  by (simp add: main_def viewer_load_tasks_def truthy_def pop_def show_task_detail_def print_def
        upper_def upper_char_def)

section \<open>Report mode: enrichment from linked documents\<close>

lemma scan_lines_no_match:
  assumes "\<forall>line \<in> set lines.
             tag_search rx tid line = Inr False \<and> header_search rx tid line = Inr False"
  shows "scan_lines rx tid lines task_content False section_level = Inr task_content"
  using assms by (induction lines) simp_all

lemma load_prd_content_answers:
  assumes "\<forall>msg. documents v (resolve_prd (workspace_root v) url) \<noteq> NoAnswer msg"
  shows "\<exists>c. load_prd_content v url tid = Inr c"
  using assms
  by (cases "documents v (resolve_prd (workspace_root v) url)")
     (auto simp: load_prd_content_def Let_def split: sum.splits)

lemma prd_loop_answers:
  assumes "\<forall>k \<in> set lks. \<exists>c. load_prd_content v (link_url k) tid = Inr c"
  shows "\<exists>res. prd_loop v tid acc lks = Inr res"
  using assms
proof (induction lks arbitrary: acc)
  case Nil
  then show ?case by simp
next
  case (Cons a lks)
  then obtain c where c: "load_prd_content v (link_url a) tid = Inr c" by auto
  then have "\<exists>acc'. prd_step v tid acc a = Inr acc'"
    by (simp add: prd_step_def)
  then show ?case using Cons by auto
qed

lemma set_prd_loop:
  assumes "prd_loop v tid acc lks = Inr res"
  shows "set res =
     set acc \<union>
     {(link_name l, c) | l c.
        l \<in> set lks \<and> load_prd_content v (link_url l) tid = Inr c \<and> c \<noteq> [] \<and>
        c \<noteq> ''PRD file not found: '' @ link_url l}"
  using assms
proof (induction lks arbitrary: acc)
  case Nil
  then show ?case by simp
next
  case (Cons a lks)
  from Cons.prems obtain acc' where
    step: "prd_step v tid acc a = Inr acc'" and rest: "prd_loop v tid acc' lks = Inr res"
    by (auto split: sum.splits)
  from step obtain c where c: "load_prd_content v (link_url a) tid = Inr c"
    by (auto simp: prd_step_def split: if_splits sum.splits)
  have acc': "set acc' =
      set acc \<union> (if c \<noteq> [] \<and> c \<noteq> ''PRD file not found: '' @ link_url a
                  then {(link_name a, c)} else {})"
    using step c by (auto simp: prd_step_def split: if_splits)
  show ?case
    unfolding Cons.IH[OF rest] acc' using c by (auto split: if_splits)
qed

lemma detail_view_sections:
  assumes "j_links t = Some lks" and "prd_contents v tid lks = Inr contents"
  shows "detail_view v tid t =
           Inr ([ClearScreen, Header, DetailsTitle, Card tid t True] @ detail_sections v t contents)"
    and "ImplementationDetails n c
           \<in> set ([ClearScreen, Header, DetailsTitle, Card tid t True] @ detail_sections v t contents)
         \<longleftrightarrow> (n, c) \<in> set contents \<and> c \<noteq> []"
  using assms
  by (auto simp: detail_view_def detail_sections_def split: option.splits if_splits)

text \<open>
  C1 (amended). Take a task of the collection with links, and let the existence test of
  every linked document answer. Then the detail view completes: \<open>show_task_detail\<close> prints
  it (and with \<open>wait_for_input\<close> fails only when the input is at its end). A section of
  implementation details is shown for a link exactly when the text that
  \<open>load_prd_content\<close> returns for it is not empty and is not the not-found message for the
  url as written in the link. That text is empty when the document can be read and the
  searches for the task id run and find nothing in any line; it is the not-found message
  for the url as written when the document is missing and the resolved path reads the same
  as the url; and it is \<open>Error reading PRD: \<close> followed by the message of the exception
  when the document cannot be read or a search raises, in which case the section is shown
  with that text.
\<close>

theorem enrichment_of_detail_view:
  assumes "map_of (viewer_tasks v) tid = Some t" and "j_links t = Some lks"
    and "\<forall>k \<in> set lks. \<forall>msg.
           documents v (resolve_prd (workspace_root v) (link_url k)) \<noteq> NoAnswer msg"
    and "l \<in> set lks" and "p = resolve_prd (workspace_root v) (link_url l)"
  shows
    "\<exists>view.
       detail_view v tid t = Inr view \<and>
       show_task_detail v tid False w = Inr (w\<lparr>out := out w @ view\<rparr>) \<and>
       show_task_detail v tid True w =
         (case stdin w of
            [] \<Rightarrow> Inl EOFError
          | line # rest \<Rightarrow>
              Inr \<lparr>stdin = rest, out = out w @ view @ [Prompt ''Press Enter to continue...'']\<rparr>) \<and>
       (\<forall>n c. ImplementationDetails n c \<in> set view \<longleftrightarrow>
          (\<exists>k \<in> set lks. n = link_name k \<and> load_prd_content v (link_url k) tid = Inr c \<and>
             c \<noteq> [] \<and> c \<noteq> ''PRD file not found: '' @ link_url k)) \<and>
       (\<forall>content.
          documents v p = Text content \<and>
          (\<forall>line \<in> set (split_on (CHR 0x0A) content).
             tag_search (re v) tid line = Inr False \<and> header_search (re v) tid line = Inr False) \<longrightarrow>
          load_prd_content v (link_url l) tid = Inr []) \<and>
       (documents v p = Missing \<and> p = link_url l \<longrightarrow>
          load_prd_content v (link_url l) tid = Inr (''PRD file not found: '' @ link_url l)) \<and>
       (\<forall>msg.
          documents v p = Unreadable msg \<longrightarrow>
          load_prd_content v (link_url l) tid = Inr (''Error reading PRD: '' @ msg) \<and>
          ImplementationDetails (link_name l) (''Error reading PRD: '' @ msg) \<in> set view) \<and>
       (\<forall>content msg.
          documents v p = Text content \<and>
          scan_lines (re v) tid (split_on (CHR 0x0A) content) [] False 0 = Inl msg \<longrightarrow>
          load_prd_content v (link_url l) tid = Inr (''Error reading PRD: '' @ msg) \<and>
          ImplementationDetails (link_name l) (''Error reading PRD: '' @ msg) \<in> set view)"
proof -
  have "\<forall>k \<in> set lks. \<exists>c. load_prd_content v (link_url k) tid = Inr c"
  proof (intro ballI)
    fix k assume "k \<in> set lks"
    then have "\<forall>msg. documents v (resolve_prd (workspace_root v) (link_url k)) \<noteq> NoAnswer msg"
      using assms(3) by blast
    then show "\<exists>c. load_prd_content v (link_url k) tid = Inr c"
      by (rule load_prd_content_answers)
  qed
  then have "\<exists>contents. prd_loop v tid [] lks = Inr contents"
    by (rule prd_loop_answers)
  then obtain contents where pl: "prd_loop v tid [] lks = Inr contents" ..
  then have pc: "prd_contents v tid lks = Inr contents" by (simp add: prd_contents_def)
  let ?view = "[ClearScreen, Header, DetailsTitle, Card tid t True] @ detail_sections v t contents"
  have dv: "detail_view v tid t = Inr ?view"
    by (rule detail_view_sections(1)[OF assms(2) pc])
  have 1: "show_task_detail v tid False w = Inr (w\<lparr>out := out w @ ?view\<rparr>)"
    using assms(1) dv by (simp add: show_task_detail_def print_def)
  have 2: "show_task_detail v tid True w =
       (case stdin w of
          [] \<Rightarrow> Inl EOFError
        | line # rest \<Rightarrow>
            Inr \<lparr>stdin = rest, out = out w @ ?view @ [Prompt ''Press Enter to continue...'']\<rparr>)"
    using assms(1) dv
    by (simp add: show_task_detail_def print_def input_def split: list.splits)
  have sc: "set contents =
     {(link_name l, c) | l c.
        l \<in> set lks \<and> load_prd_content v (link_url l) tid = Inr c \<and> c \<noteq> [] \<and>
        c \<noteq> ''PRD file not found: '' @ link_url l}"
    using set_prd_loop[OF pl] by simp
  have mem: "(n, c) \<in> set contents \<longleftrightarrow>
        (\<exists>k \<in> set lks. n = link_name k \<and> load_prd_content v (link_url k) tid = Inr c \<and>
           c \<noteq> [] \<and> c \<noteq> ''PRD file not found: '' @ link_url k)" for n c
    unfolding sc by blast
  have 3: "ImplementationDetails n c \<in> set ?view \<longleftrightarrow>
        (\<exists>k \<in> set lks. n = link_name k \<and> load_prd_content v (link_url k) tid = Inr c \<and>
           c \<noteq> [] \<and> c \<noteq> ''PRD file not found: '' @ link_url k)" for n c
    unfolding detail_view_sections(2)[OF assms(2) pc] mem by blast
  have 4: "load_prd_content v (link_url l) tid = Inr []"
    if "documents v p = Text content"
      and "\<forall>line \<in> set (split_on (CHR 0x0A) content).
           tag_search (re v) tid line = Inr False \<and> header_search (re v) tid line = Inr False"
    for content
    using that assms(5) by (simp add: load_prd_content_def scan_lines_no_match)
  have 5: "load_prd_content v (link_url l) tid = Inr (''PRD file not found: '' @ link_url l)"
    if "documents v p = Missing" and "p = link_url l"
    using that assms(5) by (simp add: load_prd_content_def)
  have 6: "load_prd_content v (link_url l) tid = Inr (''Error reading PRD: '' @ msg)"
    if "documents v p = Unreadable msg" for msg
    using that assms(5) by (simp add: load_prd_content_def)
  have 7: "load_prd_content v (link_url l) tid = Inr (''Error reading PRD: '' @ msg)"
    if "documents v p = Text content"
      and "scan_lines (re v) tid (split_on (CHR 0x0A) content) [] False 0 = Inl msg"
    for content msg
    using that assms(5) by (simp add: load_prd_content_def)
  have shown: "ImplementationDetails (link_name l) (''Error reading PRD: '' @ msg) \<in> set ?view"
    if "load_prd_content v (link_url l) tid = Inr (''Error reading PRD: '' @ msg)" for msg
    unfolding 3 using assms(4) that by (intro bexI[of _ l]) simp_all
  show ?thesis
  proof (rule exI[of _ ?view], intro conjI)
    show "detail_view v tid t = Inr ?view" by (rule dv)
    show "show_task_detail v tid False w = Inr (w\<lparr>out := out w @ ?view\<rparr>)" by (rule 1)
    show "show_task_detail v tid True w =
       (case stdin w of
          [] \<Rightarrow> Inl EOFError
        | line # rest \<Rightarrow>
            Inr \<lparr>stdin = rest, out = out w @ ?view @ [Prompt ''Press Enter to continue...'']\<rparr>)"
      by (rule 2)
    show "\<forall>n c. ImplementationDetails n c \<in> set ?view \<longleftrightarrow>
          (\<exists>k \<in> set lks. n = link_name k \<and> load_prd_content v (link_url k) tid = Inr c \<and>
             c \<noteq> [] \<and> c \<noteq> ''PRD file not found: '' @ link_url k)"
      using 3 by blast
    show "\<forall>content.
          documents v p = Text content \<and>
          (\<forall>line \<in> set (split_on (CHR 0x0A) content).
             tag_search (re v) tid line = Inr False \<and> header_search (re v) tid line = Inr False) \<longrightarrow>
          load_prd_content v (link_url l) tid = Inr []"
      using 4 by blast
    show "documents v p = Missing \<and> p = link_url l \<longrightarrow>
          load_prd_content v (link_url l) tid = Inr (''PRD file not found: '' @ link_url l)"
      using 5 by blast
    show "\<forall>msg.
          documents v p = Unreadable msg \<longrightarrow>
          load_prd_content v (link_url l) tid = Inr (''Error reading PRD: '' @ msg) \<and>
          ImplementationDetails (link_name l) (''Error reading PRD: '' @ msg) \<in> set ?view"
      using 6 shown by blast
    show "\<forall>content msg.
          documents v p = Text content \<and>
          scan_lines (re v) tid (split_on (CHR 0x0A) content) [] False 0 = Inl msg \<longrightarrow>
          load_prd_content v (link_url l) tid = Inr (''Error reading PRD: '' @ msg) \<and>
          ImplementationDetails (link_name l) (''Error reading PRD: '' @ msg) \<in> set ?view"
      using 7 shown by blast
  qed
qed

lemma example_other_lines:
  "split_on (CHR 0x0A) (''# T9 other task'' @ [CHR 0x0A] @ ''[task-id: T9]'' @ [CHR 0x0A] @ ''text'') =
   [''# T9 other task'', ''[task-id: T9]'', ''text'']"
  by (simp add: split_on_def)

lemma example_resolve:
  "resolve_prd ''/ws/docs'' ''../prd/other.md'' = ''/ws/prd/other.md''"
  "resolve_prd ''/ws/docs'' ''/ws/prd/gone.md'' = ''/ws/prd/gone.md''"
  "resolve_prd ''/ws/docs'' ''../prd/locked.md'' = ''/ws/prd/locked.md''"
  "resolve_prd ''/ws/docs'' ''../prd/gone.md'' = ''/ws/prd/gone.md''"
  "resolve_prd ''/ws/docs'' ''../sealed/prd.md'' = ''/ws/sealed/prd.md''"
  by (simp_all add: resolve_prd_def path_str_def path_join_def path_parent_def parse_path_def
        split_on_def Let_def)

theorem enrichment_of_detail_view_witness:
  "documents (example_viewer [(''T1'', two_links_task)])
     (resolve_prd ''/ws/docs'' ''../prd/other.md'') =
     Text (''# T9 other task'' @ [CHR 0x0A] @ ''[task-id: T9]'' @ [CHR 0x0A] @ ''text'') \<and>
   load_prd_content (example_viewer [(''T1'', two_links_task)]) ''../prd/other.md'' ''T1'' =
     Inr [] \<and>
   documents (example_viewer [(''T1'', two_links_task)])
     (resolve_prd ''/ws/docs'' ''/ws/prd/gone.md'') = Missing \<and>
   load_prd_content (example_viewer [(''T1'', two_links_task)]) ''/ws/prd/gone.md'' ''T1'' =
     Inr ''PRD file not found: /ws/prd/gone.md'' \<and>
   (\<exists>view.
      show_task_detail (example_viewer [(''T1'', two_links_task)]) ''T1'' False
        \<lparr>stdin = [], out = []\<rparr> = Inr \<lparr>stdin = [], out = view\<rparr> \<and>
      (\<forall>n c. ImplementationDetails n c \<notin> set view)) \<and>
   (\<exists>view.
      show_task_detail (example_viewer [(''T2'', linked_task ''Design notes'' ''../prd/locked.md'')])
        ''T2'' False \<lparr>stdin = [], out = []\<rparr> = Inr \<lparr>stdin = [], out = view\<rparr> \<and>
      ImplementationDetails ''Design notes'' ''Error reading PRD: [Errno 13] Permission denied''
        \<in> set view) \<and>
   (\<exists>view.
      show_task_detail
        \<lparr>viewer_tasks = [(''T(1'', linked_task ''Notes'' ''../prd/other.md'')],
         workspace_root = ''/ws/docs'', documents = example_docs, re = strict_re\<rparr>
        ''T(1'' False \<lparr>stdin = [], out = []\<rparr> = Inr \<lparr>stdin = [], out = view\<rparr> \<and>
      ImplementationDetails ''Notes''
        ''Error reading PRD: missing ), unterminated subpattern at position 14'' \<in> set view)"
proof -
  let ?l1 = "\<lparr>link_name = ''Technical PRD'', link_url = ''../prd/other.md''\<rparr>"
  let ?l2 = "\<lparr>link_name = ''Design notes'', link_url = ''/ws/prd/gone.md''\<rparr>"
  let ?v = "example_viewer [(''T1'', two_links_task)]"
  let ?content = "''# T9 other task'' @ [CHR 0x0A] @ ''[task-id: T9]'' @ [CHR 0x0A] @ ''text''"
  have a1: "map_of (viewer_tasks ?v) ''T1'' = Some two_links_task"
    by (simp add: example_viewer_def)
  have a2: "j_links two_links_task = Some [?l1, ?l2]"
    by (simp add: two_links_task_def)
  have r: "workspace_root ?v = ''/ws/docs''" by (simp add: example_viewer_def)
  have d1: "documents ?v ''/ws/prd/other.md'' = Text ?content"
    by (simp add: example_viewer_def example_docs_def)
  have d2: "documents ?v ''/ws/prd/gone.md'' = Missing"
    by (simp add: example_viewer_def example_docs_def)
  have a3: "\<forall>k \<in> set [?l1, ?l2]. \<forall>msg.
      documents ?v (resolve_prd (workspace_root ?v) (link_url k)) \<noteq> NoAnswer msg"
    by (simp add: r example_resolve d1 d2)
  have p1: "''/ws/prd/other.md'' = resolve_prd (workspace_root ?v) (link_url ?l1)"
    by (simp add: r example_resolve)
  have p2: "''/ws/prd/gone.md'' = resolve_prd (workspace_root ?v) (link_url ?l2)"
    by (simp add: r example_resolve)
  have m: "\<forall>line \<in> set (split_on (CHR 0x0A) ?content).
      tag_search (re ?v) ''T1'' line = Inr False \<and> header_search (re ?v) ''T1'' line = Inr False"
    unfolding example_other_lines
    by (simp add: example_viewer_def literal_re_def lower_def lower_char_def is_space_def)
  have in1: "?l1 \<in> set [?l1, ?l2]" and in2: "?l2 \<in> set [?l1, ?l2]" by simp_all
  have u2: "''/ws/prd/gone.md'' = link_url ?l2" by simp
  from enrichment_of_detail_view[OF a1 a2 a3 in1 p1, of "\<lparr>stdin = [], out = []\<rparr>"]
  obtain view where
    s: "show_task_detail ?v ''T1'' False \<lparr>stdin = [], out = []\<rparr> =
          Inr (\<lparr>stdin = [], out = []\<rparr>\<lparr>out := out \<lparr>stdin = [], out = []\<rparr> @ view\<rparr>)"
    and sec: "\<forall>n c. ImplementationDetails n c \<in> set view \<longleftrightarrow>
          (\<exists>k \<in> set [?l1, ?l2]. n = link_name k \<and> load_prd_content ?v (link_url k) ''T1'' = Inr c \<and>
             c \<noteq> [] \<and> c \<noteq> ''PRD file not found: '' @ link_url k)"
    and nm: "\<forall>content.
          documents ?v ''/ws/prd/other.md'' = Text content \<and>
          (\<forall>line \<in> set (split_on (CHR 0x0A) content).
             tag_search (re ?v) ''T1'' line = Inr False \<and> header_search (re ?v) ''T1'' line = Inr False) \<longrightarrow>
          load_prd_content ?v (link_url ?l1) ''T1'' = Inr []"
    by blast
  have c1: "load_prd_content ?v (link_url ?l1) ''T1'' = Inr []"
    using nm d1 m by blast
  have c2: "load_prd_content ?v (link_url ?l2) ''T1'' =
      Inr (''PRD file not found: '' @ link_url ?l2)"
    using enrichment_of_detail_view[OF a1 a2 a3 in2 p2, of "\<lparr>stdin = [], out = []\<rparr>"] d2 u2
    by blast
  have none: "\<forall>n c. ImplementationDetails n c \<notin> set view"
  proof (intro allI notI)
    fix n c
    assume "ImplementationDetails n c \<in> set view"
    then obtain k where k: "k \<in> set [?l1, ?l2]"
      "load_prd_content ?v (link_url k) ''T1'' = Inr c" "c \<noteq> []"
      "c \<noteq> ''PRD file not found: '' @ link_url k"
      using sec by blast
    from k(1) have "k = ?l1 \<or> k = ?l2" by simp
    then show False using k(2-4) c1 c2 by auto
  qed
  have s': "show_task_detail ?v ''T1'' False \<lparr>stdin = [], out = []\<rparr> = Inr \<lparr>stdin = [], out = view\<rparr>"
    using s by simp
  have e: "\<exists>view.
      show_task_detail ?v ''T1'' False \<lparr>stdin = [], out = []\<rparr> = Inr \<lparr>stdin = [], out = view\<rparr> \<and>
      (\<forall>n c. ImplementationDetails n c \<notin> set view)"
    using s' none by blast
  have c1': "load_prd_content ?v ''../prd/other.md'' ''T1'' = Inr []" using c1 by simp
  have c2': "load_prd_content ?v ''/ws/prd/gone.md'' ''T1'' = Inr ''PRD file not found: /ws/prd/gone.md''"
    using c2 by simp
  have e2:
    "\<exists>view.
        show_task_detail (example_viewer [(''T2'', linked_task ''Design notes'' ''../prd/locked.md'')])
          ''T2'' False \<lparr>stdin = [], out = []\<rparr> = Inr \<lparr>stdin = [], out = view\<rparr> \<and>
        ImplementationDetails ''Design notes'' ''Error reading PRD: [Errno 13] Permission denied''
          \<in> set view"
  proof -
    let ?l = "\<lparr>link_name = ''Design notes'', link_url = ''../prd/locked.md''\<rparr>"
    let ?t = "linked_task ''Design notes'' ''../prd/locked.md''"
    let ?v = "example_viewer [(''T2'', ?t)]"
    have a1: "map_of (viewer_tasks ?v) ''T2'' = Some ?t" by (simp add: example_viewer_def)
    have a2: "j_links ?t = Some [?l]" by (simp add: linked_task_def)
    have r: "workspace_root ?v = ''/ws/docs''" by (simp add: example_viewer_def)
    have d: "documents ?v ''/ws/prd/locked.md'' = Unreadable ''[Errno 13] Permission denied''"
      by (simp add: example_viewer_def example_docs_def)
    have a3: "\<forall>k \<in> set [?l]. \<forall>msg.
        documents ?v (resolve_prd (workspace_root ?v) (link_url k)) \<noteq> NoAnswer msg"
      by (simp add: r example_resolve d)
    have p: "''/ws/prd/locked.md'' = resolve_prd (workspace_root ?v) (link_url ?l)"
      by (simp add: r example_resolve)
    have i: "?l \<in> set [?l]" by simp
    from enrichment_of_detail_view[OF a1 a2 a3 i p, of "\<lparr>stdin = [], out = []\<rparr>"]
    obtain view where
      s: "show_task_detail ?v ''T2'' False \<lparr>stdin = [], out = []\<rparr> =
            Inr (\<lparr>stdin = [], out = []\<rparr>\<lparr>out := out \<lparr>stdin = [], out = []\<rparr> @ view\<rparr>)"
      and u: "\<forall>msg. documents ?v ''/ws/prd/locked.md'' = Unreadable msg \<longrightarrow>
            load_prd_content ?v (link_url ?l) ''T2'' = Inr (''Error reading PRD: '' @ msg) \<and>
            ImplementationDetails (link_name ?l) (''Error reading PRD: '' @ msg) \<in> set view"
      by blast
    have m: "ImplementationDetails (link_name ?l)
        (''Error reading PRD: '' @ ''[Errno 13] Permission denied'') \<in> set view"
      using u d by blast
    have s': "show_task_detail ?v ''T2'' False \<lparr>stdin = [], out = []\<rparr> = Inr \<lparr>stdin = [], out = view\<rparr>"
      using s by simp
    have m': "ImplementationDetails ''Design notes'' ''Error reading PRD: [Errno 13] Permission denied''
        \<in> set view"
      using m by simp
    show ?thesis using s' m' by blast
  qed
  have e3:
    "\<exists>view.
        show_task_detail
          \<lparr>viewer_tasks = [(''T(1'', linked_task ''Notes'' ''../prd/other.md'')],
           workspace_root = ''/ws/docs'', documents = example_docs, re = strict_re\<rparr>
          ''T(1'' False \<lparr>stdin = [], out = []\<rparr> = Inr \<lparr>stdin = [], out = view\<rparr> \<and>
        ImplementationDetails ''Notes''
          ''Error reading PRD: missing ), unterminated subpattern at position 14'' \<in> set view"
  proof -
    let ?l = "\<lparr>link_name = ''Notes'', link_url = ''../prd/other.md''\<rparr>"
    let ?t = "linked_task ''Notes'' ''../prd/other.md''"
    let ?v = "\<lparr>viewer_tasks = [(''T(1'', ?t)], workspace_root = ''/ws/docs'',
               documents = example_docs, re = strict_re\<rparr>"
    let ?content = "''# T9 other task'' @ [CHR 0x0A] @ ''[task-id: T9]'' @ [CHR 0x0A] @ ''text''"
    have a1: "map_of (viewer_tasks ?v) ''T(1'' = Some ?t" by simp
    have a2: "j_links ?t = Some [?l]" by (simp add: linked_task_def)
    have d: "documents ?v ''/ws/prd/other.md'' = Text ?content"
      by (simp add: example_docs_def)
    have a3: "\<forall>k \<in> set [?l]. \<forall>msg.
        documents ?v (resolve_prd (workspace_root ?v) (link_url k)) \<noteq> NoAnswer msg"
      by (simp add: example_resolve example_docs_def)
    have p: "''/ws/prd/other.md'' = resolve_prd (workspace_root ?v) (link_url ?l)"
      by (simp add: example_resolve)
    have i: "?l \<in> set [?l]" by simp
    have sc: "scan_lines (re ?v) ''T(1'' (split_on (CHR 0x0A) ?content) [] False 0 =
        Inl ''missing ), unterminated subpattern at position 14''"
      unfolding example_other_lines by (simp add: strict_re_def)
    from enrichment_of_detail_view[OF a1 a2 a3 i p, of "\<lparr>stdin = [], out = []\<rparr>"]
    obtain view where
      s: "show_task_detail ?v ''T(1'' False \<lparr>stdin = [], out = []\<rparr> =
            Inr (\<lparr>stdin = [], out = []\<rparr>\<lparr>out := out \<lparr>stdin = [], out = []\<rparr> @ view\<rparr>)"
      and u: "\<forall>content msg.
            documents ?v ''/ws/prd/other.md'' = Text content \<and>
            scan_lines (re ?v) ''T(1'' (split_on (CHR 0x0A) content) [] False 0 = Inl msg \<longrightarrow>
            load_prd_content ?v (link_url ?l) ''T(1'' = Inr (''Error reading PRD: '' @ msg) \<and>
            ImplementationDetails (link_name ?l) (''Error reading PRD: '' @ msg) \<in> set view"
      by blast
    have m: "ImplementationDetails (link_name ?l)
        (''Error reading PRD: '' @ ''missing ), unterminated subpattern at position 14'') \<in> set view"
      using u d sc by blast
    have s': "show_task_detail ?v ''T(1'' False \<lparr>stdin = [], out = []\<rparr> = Inr \<lparr>stdin = [], out = view\<rparr>"
      using s by simp
    have m': "ImplementationDetails ''Notes''
        ''Error reading PRD: missing ), unterminated subpattern at position 14'' \<in> set view"
      using m by simp
    show ?thesis using s' m' by blast
  qed
  show ?thesis
    unfolding example_resolve using d1 d2 c1' c2' e e2 e3 by blast
qed

lemma detail_view_one_link:
  assumes "load_prd_content v url tid = Inr content" and "content \<noteq> []"
    and "content \<noteq> ''PRD file not found: '' @ url"
  shows "detail_view v tid (linked_task name url) =
     Inr [ClearScreen, Header, DetailsTitle, Card tid (linked_task name url) True,
          ImplementationDetails name content]"
proof -
  have pc: "prd_contents v tid [\<lparr>link_name = name, link_url = url\<rparr>] = Inr [(name, content)]"
    using assms by (simp add: prd_contents_def prd_step_def)
  have j: "j_links (linked_task name url) = Some [\<lparr>link_name = name, link_url = url\<rparr>]"
      "j_details (linked_task name url) = None" "j_subtasks (linked_task name url) = None"
    by (simp_all add: linked_task_def no_members_def)
  show ?thesis using assms(2) by (simp add: detail_view_def j pc detail_sections_def)
qed

theorem enrichment_unreadable_counterexample:
  "documents (example_viewer [(''T1'', linked_task ''Technical PRD'' ''../prd/locked.md'')])
     (resolve_prd ''/ws/docs'' ''../prd/locked.md'') =
     Unreadable ''[Errno 13] Permission denied'' \<and>
   show_task_detail (example_viewer [(''T1'', linked_task ''Technical PRD'' ''../prd/locked.md'')])
     ''T1'' False \<lparr>stdin = [], out = []\<rparr> =
     Inr \<lparr>stdin = [],
          out = [ClearScreen, Header, DetailsTitle,
                 Card ''T1'' (linked_task ''Technical PRD'' ''../prd/locked.md'') True,
                 ImplementationDetails ''Technical PRD''
                   ''Error reading PRD: [Errno 13] Permission denied'']\<rparr>"
proof -
  let ?v = "example_viewer [(''T1'', linked_task ''Technical PRD'' ''../prd/locked.md'')]"
  have d: "documents ?v ''/ws/prd/locked.md'' = Unreadable ''[Errno 13] Permission denied''"
    by (simp add: example_viewer_def example_docs_def)
  have r: "workspace_root ?v = ''/ws/docs''" by (simp add: example_viewer_def)
  have c: "load_prd_content ?v ''../prd/locked.md'' ''T1'' =
      Inr ''Error reading PRD: [Errno 13] Permission denied''"
    by (simp add: load_prd_content_def r example_resolve d)
  have t: "map_of (viewer_tasks ?v) ''T1'' = Some (linked_task ''Technical PRD'' ''../prd/locked.md'')"
    by (simp add: example_viewer_def)
  have dv: "detail_view ?v ''T1'' (linked_task ''Technical PRD'' ''../prd/locked.md'') =
      Inr [ClearScreen, Header, DetailsTitle,
           Card ''T1'' (linked_task ''Technical PRD'' ''../prd/locked.md'') True,
           ImplementationDetails ''Technical PRD'' ''Error reading PRD: [Errno 13] Permission denied'']"
    by (rule detail_view_one_link[OF c]) simp_all
  show ?thesis
    by (simp add: example_resolve d show_task_detail_def t dv print_def)
qed

lemma enrichment_missing_relative_url:
  "documents (example_viewer [(''T1'', linked_task ''Technical PRD'' ''../prd/gone.md'')])
     (resolve_prd ''/ws/docs'' ''../prd/gone.md'') = Missing \<and>
   show_task_detail (example_viewer [(''T1'', linked_task ''Technical PRD'' ''../prd/gone.md'')])
     ''T1'' False \<lparr>stdin = [], out = []\<rparr> =
     Inr \<lparr>stdin = [],
          out = [ClearScreen, Header, DetailsTitle,
                 Card ''T1'' (linked_task ''Technical PRD'' ''../prd/gone.md'') True,
                 ImplementationDetails ''Technical PRD''
                   ''PRD file not found: /ws/prd/gone.md'']\<rparr>"
proof -
  let ?v = "example_viewer [(''T1'', linked_task ''Technical PRD'' ''../prd/gone.md'')]"
  have d: "documents ?v ''/ws/prd/gone.md'' = Missing"
    by (simp add: example_viewer_def example_docs_def)
  have r: "workspace_root ?v = ''/ws/docs''" by (simp add: example_viewer_def)
  have c: "load_prd_content ?v ''../prd/gone.md'' ''T1'' =
      Inr ''PRD file not found: /ws/prd/gone.md''"
    by (simp add: load_prd_content_def r example_resolve d)
  have t: "map_of (viewer_tasks ?v) ''T1'' = Some (linked_task ''Technical PRD'' ''../prd/gone.md'')"
    by (simp add: example_viewer_def)
  have dv: "detail_view ?v ''T1'' (linked_task ''Technical PRD'' ''../prd/gone.md'') =
      Inr [ClearScreen, Header, DetailsTitle,
           Card ''T1'' (linked_task ''Technical PRD'' ''../prd/gone.md'') True,
           ImplementationDetails ''Technical PRD'' ''PRD file not found: /ws/prd/gone.md'']"
    by (rule detail_view_one_link[OF c]) simp_all
  show ?thesis
    by (simp add: example_resolve d show_task_detail_def t dv print_def)
qed

lemma enrichment_exists_raises:
  "documents (example_viewer [(''T1'', linked_task ''Technical PRD'' ''../sealed/prd.md'')])
     (resolve_prd ''/ws/docs'' ''../sealed/prd.md'') =
     NoAnswer ''[Errno 13] Permission denied'' \<and>
   show_task_detail (example_viewer [(''T1'', linked_task ''Technical PRD'' ''../sealed/prd.md'')])
     ''T1'' False \<lparr>stdin = [], out = []\<rparr> =
     Inl (OSError ''[Errno 13] Permission denied'')"
proof -
  let ?v = "example_viewer [(''T1'', linked_task ''Technical PRD'' ''../sealed/prd.md'')]"
  have d: "documents ?v ''/ws/sealed/prd.md'' = NoAnswer ''[Errno 13] Permission denied''"
    by (simp add: example_viewer_def example_docs_def)
  have r: "workspace_root ?v = ''/ws/docs''" by (simp add: example_viewer_def)
  have c: "load_prd_content ?v ''../sealed/prd.md'' ''T1'' =
      Inl (OSError ''[Errno 13] Permission denied'')"
    by (simp add: load_prd_content_def r example_resolve d)
  have t: "map_of (viewer_tasks ?v) ''T1'' = Some (linked_task ''Technical PRD'' ''../sealed/prd.md'')"
    by (simp add: example_viewer_def)
  have j: "j_links (linked_task ''Technical PRD'' ''../sealed/prd.md'') =
      Some [\<lparr>link_name = ''Technical PRD'', link_url = ''../sealed/prd.md''\<rparr>]"
    by (simp add: linked_task_def)
  have dv: "detail_view ?v ''T1'' (linked_task ''Technical PRD'' ''../sealed/prd.md'') =
      Inl (OSError ''[Errno 13] Permission denied'')"
    by (simp add: detail_view_def j prd_contents_def prd_step_def c)
  show ?thesis
    by (simp add: example_resolve d show_task_detail_def t dv)
qed

section \<open>Report mode: invalid input in the menu\<close>

lemma pick_option_None:
  "pick_option opts ch = Inr None \<longleftrightarrow>
     \<not> isdigit ch \<or> (\<exists>n. py_int ch = Inr n \<and> (n < 1 \<or> int (length opts) < n))"
  by (auto simp: pick_option_def split: sum.splits)

lemma menu_pass_unknown_id:
  assumes "lower (strip c) = ''2''" and "map_of (viewer_tasks v) (upper (strip l2)) = None"
  shows "menu_pass v \<lparr>stdin = c # l2 # l3 # rest, out = printed\<rparr> =
     Inr (True, \<lparr>stdin = rest,
                 out = printed @ [ClearScreen, Header, Stats, MenuOptions, Prompt ''Select option: '',
                            Prompt ''Enter task ID: '', TaskNotFound (upper (strip l2)),
                            Prompt ''Press Enter to continue...'']\<rparr>)"
  using assms
  by (simp add: menu_pass_def input_def print_def show_task_detail_def Let_def)

lemma select_task_invalid:
  assumes "strip l2 \<noteq> []"
    and "strip l2 \<notin> set (map str_nat
           [1..<Suc (length (concat (map snd (milestone_buckets (viewer_tasks v)))))])"
  shows "select_task v in_menu \<lparr>stdin = l2 # l3 # rest, out = printed\<rparr> =
     Inr \<lparr>stdin = (if in_menu then rest else l3 # rest),
          out = printed @ [ClearScreen, Header] @
                render_buckets True 1 (milestone_buckets (viewer_tasks v)) @
                [SelectTaskHint, Prompt ''Select task: '', InvalidSelection] @
                (if in_menu then [Prompt ''Press Enter to continue...''] else [])\<rparr>"
proof -
  let ?shown = "concat (map snd (milestone_buckets (viewer_tasks v)))"
  have "map_of (zip (map str_nat [1..<Suc (length ?shown)]) (map fst ?shown)) (strip l2) = None"
  proof -
    have len: "length (map str_nat [1..<Suc (length ?shown)]) = length (map fst ?shown)"
      by (simp only: length_map length_upt diff_Suc_1)
    show ?thesis unfolding map_of_zip_is_None[OF len] by (rule assms(2))
  qed
  then show ?thesis
    using assms(1)
    by (simp add: select_task_def list_tasks_by_milestone_def input_def print_def pop_def Let_def)
qed

lemma menu_pass_invalid_selection:
  assumes "lower (strip c) = ''1''" and "strip l2 \<noteq> []"
    and "strip l2 \<notin> set (map str_nat
           [1..<Suc (length (concat (map snd (milestone_buckets (viewer_tasks v)))))])"
  shows "menu_pass v \<lparr>stdin = c # l2 # l3 # rest, out = printed\<rparr> =
     Inr (True, \<lparr>stdin = rest,
                 out = printed @ [ClearScreen, Header, Stats, MenuOptions, Prompt ''Select option: '',
                            ClearScreen, Header] @
                       render_buckets True 1 (milestone_buckets (viewer_tasks v)) @
                       [SelectTaskHint, Prompt ''Select task: '', InvalidSelection,
                        Prompt ''Press Enter to continue...'']\<rparr>)"
  using assms(1) select_task_invalid[OF assms(2,3), of True l3 rest]
  by (simp add: menu_pass_def input_def print_def Let_def)

lemma menu_pass_invalid_status:
  assumes "lower (strip c) = ''3''"
    and "pick_option [''todo'', ''in_progress'', ''done'', ''blocked''] (strip l2) = Inr None"
  shows "menu_pass v \<lparr>stdin = c # l2 # rest, out = printed\<rparr> =
     Inr (True, \<lparr>stdin = rest,
                 out = printed @ [ClearScreen, Header, Stats, MenuOptions, Prompt ''Select option: '',
                            ClearScreen, Header, StatusMenu, Prompt ''Select status: '']\<rparr>)"
  using assms
  by (simp add: menu_pass_def filter_by_status_def input_def print_def Let_def)

lemma menu_pass_invalid_priority:
  assumes "lower (strip c) = ''4''"
    and "pick_option [''critical'', ''high'', ''medium'', ''low''] (strip l2) = Inr None"
  shows "menu_pass v \<lparr>stdin = c # l2 # rest, out = printed\<rparr> =
     Inr (True, \<lparr>stdin = rest,
                 out = printed @ [ClearScreen, Header, Stats, MenuOptions, Prompt ''Select option: '',
                            ClearScreen, Header, PriorityMenu, Prompt ''Select priority: '']\<rparr>)"
  using assms
  by (simp add: menu_pass_def filter_by_priority_def input_def print_def Let_def)

lemma interactive_menu_goes_on:
  "menu_pass v w = Inr (True, w') \<Longrightarrow> interactive_menu v w = interactive_menu v w'"
  by (subst interactive_menu.simps) simp

text \<open>
  C8 (amended). In the menu loop of report mode, with input left for the questions asked:
  under option 2 an id that (upper-cased) is not in the collection is reported as not
  found; under option 1 a selection that is not empty and is none of the printed numbers
  is reported as an invalid selection; under options 3 and 4 a choice that is not a string
  of digits, or is a string of digits that \<open>int\<close> converts to a number outside 1 to 4, is
  not reported: the filter prints nothing more and returns. In each case the pass ends
  normally and the loop goes on with the main menu. The ids are those whose upper case is a
  string of the model (\<open>upper_fits\<close>).
\<close>

theorem menu_invalid_input:
  "(lower (strip c) = ''2'' \<and> upper_fits (strip l2) \<and>
    map_of (viewer_tasks v) (upper (strip l2)) = None \<longrightarrow>
      menu_pass v \<lparr>stdin = c # l2 # l3 # rest, out = printed\<rparr> =
        Inr (True, \<lparr>stdin = rest,
                    out = printed @
                      [ClearScreen, Header, Stats, MenuOptions, Prompt ''Select option: '',
                       Prompt ''Enter task ID: '', TaskNotFound (upper (strip l2)),
                       Prompt ''Press Enter to continue...'']\<rparr>)) \<and>
   (lower (strip c) = ''1'' \<and> strip l2 \<noteq> [] \<and>
    strip l2 \<notin> set (map str_nat
       [1..<Suc (length (concat (map snd (milestone_buckets (viewer_tasks v)))))]) \<longrightarrow>
      menu_pass v \<lparr>stdin = c # l2 # l3 # rest, out = printed\<rparr> =
        Inr (True, \<lparr>stdin = rest,
                    out = printed @
                      [ClearScreen, Header, Stats, MenuOptions, Prompt ''Select option: '',
                       ClearScreen, Header] @
                      render_buckets True 1 (milestone_buckets (viewer_tasks v)) @
                      [SelectTaskHint, Prompt ''Select task: '', InvalidSelection,
                       Prompt ''Press Enter to continue...'']\<rparr>)) \<and>
   (lower (strip c) = ''3'' \<and>
    (\<not> isdigit (strip l2) \<or> (\<exists>n. py_int (strip l2) = Inr n \<and> (n < 1 \<or> 4 < n))) \<longrightarrow>
      menu_pass v \<lparr>stdin = c # l2 # rest, out = printed\<rparr> =
        Inr (True, \<lparr>stdin = rest,
                    out = printed @
                      [ClearScreen, Header, Stats, MenuOptions, Prompt ''Select option: '',
                       ClearScreen, Header, StatusMenu, Prompt ''Select status: '']\<rparr>)) \<and>
   (lower (strip c) = ''4'' \<and>
    (\<not> isdigit (strip l2) \<or> (\<exists>n. py_int (strip l2) = Inr n \<and> (n < 1 \<or> 4 < n))) \<longrightarrow>
      menu_pass v \<lparr>stdin = c # l2 # rest, out = printed\<rparr> =
        Inr (True, \<lparr>stdin = rest,
                    out = printed @
                      [ClearScreen, Header, Stats, MenuOptions, Prompt ''Select option: '',
                       ClearScreen, Header, PriorityMenu, Prompt ''Select priority: '']\<rparr>)) \<and>
   (\<forall>w w'. menu_pass v w = Inr (True, w') \<longrightarrow> interactive_menu v w = interactive_menu v w')"
proof -
  have s: "pick_option [''todo'', ''in_progress'', ''done'', ''blocked''] (strip l2) = Inr None"
    if "\<not> isdigit (strip l2) \<or> (\<exists>n. py_int (strip l2) = Inr n \<and> (n < 1 \<or> 4 < n))"
    using that unfolding pick_option_None by simp
  have p: "pick_option [''critical'', ''high'', ''medium'', ''low''] (strip l2) = Inr None"
    if "\<not> isdigit (strip l2) \<or> (\<exists>n. py_int (strip l2) = Inr n \<and> (n < 1 \<or> 4 < n))"
    using that unfolding pick_option_None by simp
  show ?thesis
    using menu_pass_unknown_id[of c v l2 l3 rest printed]
      menu_pass_invalid_selection[of c l2 v l3 rest printed]
      menu_pass_invalid_status[of c l2 v rest printed, OF _ s]
      menu_pass_invalid_priority[of c l2 v rest printed, OF _ p]
      interactive_menu_goes_on[of v]
    by blast
qed

lemma example_choices:
  "lower (strip ''3'') = ''3''" "lower (strip ''2'') = ''2''" "strip ''9'' = ''9''"
  "upper (strip ''zz'') = ''ZZ''" "py_int ''9'' = Inr 9" "upper_fits (strip ''zz'')"
  by (simp_all add: lower_def upper_def strip_def is_space_def lower_char_def upper_char_def
        py_int_def is_ascii_digit_def upper_fits_def)

theorem menu_invalid_input_witness:
  "menu_pass (example_viewer [(''T1'', no_members)]) \<lparr>stdin = [''3'', ''9'', ''q''], out = []\<rparr> =
     Inr (True, \<lparr>stdin = [''q''],
                 out = [ClearScreen, Header, Stats, MenuOptions, Prompt ''Select option: '',
                        ClearScreen, Header, StatusMenu, Prompt ''Select status: '']\<rparr>) \<and>
   interactive_menu (example_viewer [(''T1'', no_members)])
       \<lparr>stdin = [''3'', ''9'', ''q''], out = []\<rparr> =
     interactive_menu (example_viewer [(''T1'', no_members)])
       \<lparr>stdin = [''q''],
        out = [ClearScreen, Header, Stats, MenuOptions, Prompt ''Select option: '',
               ClearScreen, Header, StatusMenu, Prompt ''Select status: '']\<rparr> \<and>
   menu_pass (example_viewer [(''T1'', no_members)])
       \<lparr>stdin = [''2'', ''zz'', '''', ''q''], out = []\<rparr> =
     Inr (True, \<lparr>stdin = [''q''],
                 out = [ClearScreen, Header, Stats, MenuOptions, Prompt ''Select option: '',
                        Prompt ''Enter task ID: '', TaskNotFound ''ZZ'',
                        Prompt ''Press Enter to continue...'']\<rparr>) \<and>
   menu_pass (example_viewer [(''T1'', no_members)]) \<lparr>stdin = [''4'', ''0'', ''q''], out = []\<rparr> =
      Inr (True, \<lparr>stdin = [''q''],
                  out = [ClearScreen, Header, Stats, MenuOptions, Prompt ''Select option: '',
                         ClearScreen, Header, PriorityMenu, Prompt ''Select priority: '']\<rparr>) \<and>
   menu_pass (example_viewer [(''T1'', no_members)])
        \<lparr>stdin = [''1'', ''x'', '''', ''q''], out = []\<rparr> =
      Inr (True, \<lparr>stdin = [''q''],
                  out = [ClearScreen, Header, Stats, MenuOptions, Prompt ''Select option: '',
                         ClearScreen, Header, MilestoneHeader ''Unassigned'', SelectionNumber 1,
                         Card ''T1'' no_members False, SelectTaskHint, Prompt ''Select task: '',
                         InvalidSelection, Prompt ''Press Enter to continue...'']\<rparr>)"
proof -
  let ?v = "example_viewer [(''T1'', no_members)]"
  have h3: "\<not> isdigit (strip ''9'') \<or> (\<exists>n. py_int (strip ''9'') = Inr n \<and> (n < 1 \<or> 4 < n))"
    by (simp add: example_choices)
  have h2: "map_of (viewer_tasks ?v) (upper (strip ''zz'')) = None"
    by (simp add: example_choices example_viewer_def)
  have a: "menu_pass ?v \<lparr>stdin = [''3'', ''9'', ''q''], out = []\<rparr> =
     Inr (True, \<lparr>stdin = [''q''],
                 out = [ClearScreen, Header, Stats, MenuOptions, Prompt ''Select option: '',
                        ClearScreen, Header, StatusMenu, Prompt ''Select status: '']\<rparr>)"
    using menu_invalid_input[of "''3''" "''9''" ?v "''''" "[''q'']" "[]"] h3
    by (simp add: example_choices)
  have b: "menu_pass ?v \<lparr>stdin = [''2'', ''zz'', '''', ''q''], out = []\<rparr> =
     Inr (True, \<lparr>stdin = [''q''],
                 out = [ClearScreen, Header, Stats, MenuOptions, Prompt ''Select option: '',
                        Prompt ''Enter task ID: '', TaskNotFound ''ZZ'',
                        Prompt ''Press Enter to continue...'']\<rparr>)"
    using menu_invalid_input[of "''2''" "''zz''" ?v "''''" "[''q'']" "[]"] h2
    by (simp add: example_choices)
  have c: "interactive_menu ?v \<lparr>stdin = [''3'', ''9'', ''q''], out = []\<rparr> =
     interactive_menu ?v
       \<lparr>stdin = [''q''],
        out = [ClearScreen, Header, Stats, MenuOptions, Prompt ''Select option: '',
               ClearScreen, Header, StatusMenu, Prompt ''Select status: '']\<rparr>"
    using menu_invalid_input[of "''3''" "''9''" ?v "''''" "[''q'']" "[]"] a by blast
  have d:
    "menu_pass (example_viewer [(''T1'', no_members)]) \<lparr>stdin = [''4'', ''0'', ''q''], out = []\<rparr> =
       Inr (True, \<lparr>stdin = [''q''],
                   out = [ClearScreen, Header, Stats, MenuOptions, Prompt ''Select option: '',
                          ClearScreen, Header, PriorityMenu, Prompt ''Select priority: '']\<rparr>)"
  proof -
    let ?v = "example_viewer [(''T1'', no_members)]"
    have c: "lower (strip ''4'') = ''4''" "strip ''0'' = ''0''" "py_int ''0'' = Inr 0"
      by (simp_all add: lower_def strip_def is_space_def lower_char_def py_int_def is_ascii_digit_def)
    have h4: "\<not> isdigit (strip ''0'') \<or> (\<exists>n. py_int (strip ''0'') = Inr n \<and> (n < 1 \<or> 4 < n))"
      by (simp add: c)
    show ?thesis
      using menu_invalid_input[of "''4''" "''0''" ?v "''''" "[''q'']" "[]"] h4
      by (simp add: c)
  qed
  have e:
    "menu_pass (example_viewer [(''T1'', no_members)])
         \<lparr>stdin = [''1'', ''x'', '''', ''q''], out = []\<rparr> =
       Inr (True, \<lparr>stdin = [''q''],
                   out = [ClearScreen, Header, Stats, MenuOptions, Prompt ''Select option: '',
                          ClearScreen, Header, MilestoneHeader ''Unassigned'', SelectionNumber 1,
                          Card ''T1'' no_members False, SelectTaskHint, Prompt ''Select task: '',
                          InvalidSelection, Prompt ''Press Enter to continue...'']\<rparr>)"
  proof -
    let ?v = "example_viewer [(''T1'', no_members)]"
    have c: "lower (strip ''1'') = ''1''" "strip ''x'' = ''x''"
      by (simp_all add: lower_def strip_def is_space_def lower_char_def)
    have b: "milestone_buckets (viewer_tasks ?v) = [(''Unassigned'', [(''T1'', no_members)])]"
      by (simp add: example_viewer_def milestone_buckets_def group_by_milestone_def
            milestone_key_def pop_def no_members_def Let_def)
    have n: "strip ''x'' \<notin> set (map str_nat
         [1..<Suc (length (concat (map snd (milestone_buckets (viewer_tasks ?v)))))])"
      by (simp add: b c str_nat.simps)
    show ?thesis
      using menu_invalid_input[of "''1''" "''x''" ?v "''''" "[''q'']" "[]"] n
      by (simp add: c b)
  qed
  show ?thesis using a b c d e by simp
qed

theorem filter_choice_not_reported_counterexample:
  "filter_by_status (example_viewer [(''T1'', no_members)]) \<lparr>stdin = [''9'', ''q''], out = []\<rparr> =
     Inr \<lparr>stdin = [''q''], out = [ClearScreen, Header, StatusMenu, Prompt ''Select status: '']\<rparr> \<and>
   filter_by_priority (example_viewer [(''T1'', no_members)]) \<lparr>stdin = [''0'', ''q''], out = []\<rparr> =
     Inr \<lparr>stdin = [''q''], out = [ClearScreen, Header, PriorityMenu, Prompt ''Select priority: '']\<rparr>"
  by (simp add: filter_by_status_def filter_by_priority_def input_def print_def Let_def
        pick_option_def isdigit_def py_int_def is_ascii_digit_def strip_def is_space_def)

lemma filter_choice_superscript_raises:
  "isdigit [CHR 0xB2] \<and>
   filter_by_status (example_viewer [(''T1'', no_members)]) \<lparr>stdin = [[CHR 0xB2], ''q''], out = []\<rparr> =
     Inl (ValueError ''invalid literal for int()'') \<and>
   interactive_menu (example_viewer [(''T1'', no_members)])
     \<lparr>stdin = [''3'', [CHR 0xB2], ''q''], out = []\<rparr> =
     Inl (ValueError ''invalid literal for int()'')"
proof -
  have f: "filter_by_status (example_viewer [(''T1'', no_members)])
       \<lparr>stdin = [[CHR 0xB2], ''q''], out = out0\<rparr> =
     Inl (ValueError ''invalid literal for int()'')" for out0
    by (simp add: filter_by_status_def input_def print_def Let_def
        pick_option_def isdigit_def py_int_def is_ascii_digit_def strip_def is_space_def)
  have m: "menu_pass (example_viewer [(''T1'', no_members)])
       \<lparr>stdin = [''3'', [CHR 0xB2], ''q''], out = []\<rparr> =
     Inl (ValueError ''invalid literal for int()'')"
    by (simp add: menu_pass_def input_def print_def Let_def example_choices f)
  have d: "isdigit [CHR 0xB2]" by (simp add: isdigit_def is_ascii_digit_def)
  show ?thesis using f m d by (subst interactive_menu.simps) simp
qed

lemma filter_choice_long_number_raises:
  "isdigit (replicate 4301 CHR ''0'') \<and>
   pick_option [''todo'', ''in_progress'', ''done'', ''blocked''] (replicate 4301 CHR ''0'') =
     Inl (ValueError ''Exceeds the limit (4300 digits) for integer string conversion'')"
  by (simp add: pick_option_def isdigit_def py_int_def is_ascii_digit_def list_all_iff)

end
